theory Spec2Isabelle
  imports Complex_Main "HOL-Library.Sublist"
begin

section \<open>JavaScript strings and values\<close>

text \<open>
  Strings are character lists. \<open>String.prototype.startsWith\<close> and
  \<open>String.prototype.includes\<close> are written out as the recursions they compute.
\<close>

fun startsWith :: "string \<Rightarrow> string \<Rightarrow> bool" where
  "startsWith s [] = True"
| "startsWith [] (c # t) = False"
| "startsWith (a # s) (c # t) = (a = c \<and> startsWith s t)"

fun str_includes :: "string \<Rightarrow> string \<Rightarrow> bool" where
  "str_includes [] t = (t = [])"
| "str_includes (a # s) t = (startsWith (a # s) t \<or> str_includes s t)"

text \<open>
  A declared version is a raw string of the manifest. A JavaScript condition on such a value
  tests its truthiness: the empty string is falsy, every other string is truthy, and a missing
  key reads \<open>undefined\<close>, which is falsy.
\<close>

definition truthy :: "string option \<Rightarrow> bool" where
  "truthy v = (case v of None \<Rightarrow> False | Some s \<Rightarrow> s \<noteq> [])"

text \<open>How a call ends: it returns a value, or raises an error with a message.\<close>

datatype 'a outcome = Returned 'a | Raised string

text \<open>Decimal rendering of a non-negative integer, as a template literal prints it.\<close>

definition digit_char :: "nat \<Rightarrow> char" where
  "digit_char d = ''0123456789'' ! d"

fun string_of_nat :: "nat \<Rightarrow> string" where
  "string_of_nat n =
     (if n < 10 then [digit_char n] else string_of_nat (n div 10) @ [digit_char (n mod 10)])"

declare string_of_nat.simps [simp del]

text \<open>Reading a decimal numeral back, to check the rendering against.\<close>

fun digit_value :: "char \<Rightarrow> nat" where
  "digit_value c = of_char c - 48"

fun decimal_value :: "nat \<Rightarrow> string \<Rightarrow> nat" where
  "decimal_value acc [] = acc"
| "decimal_value acc (c # s) = decimal_value (10 * acc + digit_value c) s"

section \<open>Data model\<close>

text \<open>
  The framework of an analysis ranges over the keys of the indicator table, plus the initial
  value \<open>'none'\<close>.
\<close>

datatype framework = React | Vue | Angular | Nextjs | Nuxtjs | Svelte | Traditional | NoFramework

fun framework_name :: "framework \<Rightarrow> string" where
  "framework_name React = ''react''"
| "framework_name Vue = ''vue''"
| "framework_name Angular = ''angular''"
| "framework_name Nextjs = ''nextjs''"
| "framework_name Nuxtjs = ''nuxtjs''"
| "framework_name Svelte = ''svelte''"
| "framework_name Traditional = ''traditional''"
| "framework_name NoFramework = ''none''"

datatype entryKind = Directory | File

text \<open>
  An entry of \<open>projectStructure\<close>. Directory entries carry \<open>depth\<close>; file entries carry
  \<open>extension\<close> and \<open>size\<close> instead. A field an entry does not have is \<open>None\<close>.
\<close>

record structureEntry =
  item_type :: entryKind
  item_path :: string
  item_depth :: "nat option"
  item_extension :: "string option"
  item_size :: "nat option"
  important :: bool

record entryPoint =
  entry_path :: string
  entry_exists :: bool

record testFile =
  test_path :: string
  test_type :: string
  test_framework :: string

record buildTool =
  tool_name :: string
  configFile :: string

record executableScript =
  command :: string
  canExecute :: bool
  script_type :: string

record packageInfo =
  package_name :: "string option"
  package_version :: "string option"
  package_description :: "string option"
  package_main :: "string option"
  package_author :: "string option"

text \<open>
  The analysis record. The last four fields are the ones the sub-steps add to the object; they
  are \<open>None\<close> while absent.
\<close>

record analysis =
  projectType :: string
  framework :: framework
  hasPackageJson :: bool
  dependencies :: "string \<rightharpoonup> string"
  devDependencies :: "string \<rightharpoonup> string"
  dependenciesInstalled :: bool
  cypressInstalled :: bool
  projectStructure :: "structureEntry list"
  entryPoints :: "entryPoint list"
  testFiles :: "testFile list"
  buildTools :: "buildTool list"
  executableScripts :: "(string \<times> executableScript) list"
  analysisDate :: string
  scripts :: "(string \<times> string) list option"
  packageJson :: "packageInfo option"
  testingFrameworks :: "string list option"
  buildScripts :: "(string \<times> string) list option"

text \<open>A strategy profile, one row of \<open>TestStrategy.strategies\<close>.\<close>

record profile =
  name :: string
  priority :: "string list"
  selectors :: "string list"
  patterns :: "string list"

text \<open>
  \<open>generateStrategy\<close> spreads the profile into the strategy and adds its own fields, so a
  strategy is the profile record extended.
\<close>

record strategy = profile +
  strategy_projectType :: string
  strategy_framework :: framework
  recommendedSpecs :: int
  focusAreas :: "string list"
  testPatterns :: "string list"
  selectorStrategy :: "string list"

section \<open>Test Strategy Engine\<close>

definition react_strategy :: profile where
  "react_strategy = \<lparr> name = ''React Testing Strategy'',
     priority = [''component-testing'', ''state-management'', ''router-testing'', ''form-testing''],
     selectors = [''data-testid'', ''role'', ''aria-label'', ''className''],
     patterns = [''component-rendering'', ''user-interactions'', ''state-changes'', ''api-calls''] \<rparr>"

definition vue_strategy :: profile where
  "vue_strategy = \<lparr> name = ''Vue Testing Strategy'',
     priority = [''component-testing'', ''vuex-store'', ''router-testing'', ''form-validation''],
     selectors = [''data-test'', ''v-test'', ''aria-label'', ''class''],
     patterns = [''component-mounting'', ''event-handling'', ''computed-properties'', ''vuex-actions''] \<rparr>"

definition angular_strategy :: profile where
  "angular_strategy = \<lparr> name = ''Angular Testing Strategy'',
     priority = [''component-testing'', ''service-testing'', ''router-testing'', ''form-testing''],
     selectors = [''data-cy'', ''data-test'', ''aria-label''],
     patterns = [''component-creation'', ''dependency-injection'', ''router-navigation'', ''http-calls''] \<rparr>"

definition traditional_strategy :: profile where
  "traditional_strategy = \<lparr> name = ''Traditional Web App Strategy'',
     priority = [''navigation-testing'', ''form-testing'', ''content-validation'', ''user-flows''],
     selectors = [''id'', ''class'', ''name'', ''data-*''],
     patterns = [''page-navigation'', ''form-submission'', ''content-verification'', ''user-journey''] \<rparr>"

definition strategies :: "(framework \<times> profile) list" where
  "strategies = [(React, react_strategy), (Vue, vue_strategy), (Angular, angular_strategy),
     (Traditional, traditional_strategy)]"

text \<open>
  The arithmetic of \<open>calculateRecommendedSpecs\<close> is on JavaScript numbers; the quotient by 50
  and the product with 0.5 are taken here in the rationals, and \<open>Math.floor\<close> is the floor.
  The exact sum is a multiple of 1/50, and the rounding of the double quotient and sums is far
  smaller than that for array lengths (below \<open>2^32\<close>), so the floor of the double is the floor
  of the exact value.
\<close>

definition calculateRecommendedSpecs :: "analysis \<Rightarrow> int" where
  "calculateRecommendedSpecs a =
     (let baseCount = (3 :: rat);
          structureMultiplier = min (of_nat (length (projectStructure a)) / 50) 3;
          entryPointsBonus = of_nat (length (entryPoints a)) * (1 / 2)
      in max \<lfloor>baseCount\<rfloor> \<lfloor>baseCount + structureMultiplier + entryPointsBonus\<rfloor>)"

definition path_signal :: "analysis \<Rightarrow> string \<Rightarrow> bool" where
  "path_signal a w = list_ex (\<lambda>item. str_includes (item_path item) w) (projectStructure a)"

definition determineFocusAreas :: "analysis \<Rightarrow> string list" where
  "determineFocusAreas a =
     (let focusAreas = [];
          focusAreas = (if path_signal a ''form'' then focusAreas @ [''form-testing''] else focusAreas);
          focusAreas = (if path_signal a ''auth'' then focusAreas @ [''authentication''] else focusAreas);
          focusAreas = (if length (entryPoints a) > 1 then focusAreas @ [''navigation-testing'']
                        else focusAreas);
          focusAreas = (if path_signal a ''api'' then focusAreas @ [''api-testing''] else focusAreas)
      in if length focusAreas = 0 then focusAreas @ [''smoke-testing'', ''critical-flows'']
         else focusAreas)"

definition selectTestPatterns :: "analysis \<Rightarrow> string list \<Rightarrow> string list" where
  "selectTestPatterns a basePatterns =
     (let patterns = basePatterns;
          patterns = (if truthy (dependencies a ''axios'') \<or> truthy (dependencies a ''fetch'')
                      then patterns @ [''api-testing''] else patterns);
          patterns = (if length (entryPoints a) > 1 then patterns @ [''multi-page-testing'']
                      else patterns);
          patterns = (if path_signal a ''form'' then patterns @ [''form-validation''] else patterns)
      in patterns)"

definition generateStrategy :: "analysis \<Rightarrow> strategy" where
  "generateStrategy a =
     (let baseStrategy = (case map_of strategies (framework a) of
                            Some p \<Rightarrow> p
                          | None \<Rightarrow> traditional_strategy)
      in profile.extend baseStrategy
           (strategy.fields (projectType a) (framework a) (calculateRecommendedSpecs a)
              (determineFocusAreas a) (selectTestPatterns a (patterns baseStrategy))
              (selectors baseStrategy)))"

section \<open>Project Analyzer: framework and project-type detection\<close>

text \<open>
  \<open>frameworkIndicators\<close>, in the order its keys are declared, which is the order
  \<open>Object.entries\<close> enumerates them in.
\<close>

definition frameworkIndicators :: "(framework \<times> string list) list" where
  "frameworkIndicators =
     [(React, [''react'', ''react-dom'', ''next'', ''gatsby'']),
      (Vue, [''vue'', ''nuxt'', ''vuex'', ''vue-router'']),
      (Angular, [''@angular/core'', ''@angular/common'', ''rxjs'']),
      (Nextjs, [''next'', ''react'']),
      (Nuxtjs, [''nuxt'', ''vue'']),
      (Svelte, [''svelte'', ''svelte-kit'']),
      (Traditional, [''jquery'', ''bootstrap'', ''popper.js''])]"

text \<open>
  The loop over the table: the first row with an indicator whose value in \<open>allDeps\<close> is truthy
  assigns the framework and breaks; with no such row the framework keeps its value.
\<close>

fun detect_loop :: "(framework \<times> string list) list \<Rightarrow> (string \<rightharpoonup> string) \<Rightarrow> framework \<Rightarrow> framework" where
  "detect_loop [] allDeps fw = fw"
| "detect_loop ((f, indicators) # rest) allDeps fw =
     (if list_ex (\<lambda>indicator. truthy (allDeps indicator)) indicators then f
      else detect_loop rest allDeps fw)"

definition determineProjectType :: "analysis \<Rightarrow> (string \<rightharpoonup> string) \<Rightarrow> string" where
  "determineProjectType a allDeps =
     (let structure = map item_path (projectStructure a) in
      case framework a of
        React \<Rightarrow>
          if truthy (allDeps ''next'') then ''Next.js Application''
          else if truthy (allDeps ''gatsby'') then ''Gatsby Application''
          else if list_ex (\<lambda>s. str_includes s ''pages/'' \<or> str_includes s ''app/'') structure
            then ''React SPA''
          else ''React Application''
      | Vue \<Rightarrow>
          if truthy (allDeps ''nuxt'') then ''Nuxt.js Application''
          else if list_ex (\<lambda>s. str_includes s ''pages/'' \<or> str_includes s ''views/'') structure
            then ''Vue SPA''
          else ''Vue Application''
      | Angular \<Rightarrow> ''Angular Application''
      | Nextjs \<Rightarrow> ''Next.js SSR Application''
      | Nuxtjs \<Rightarrow> ''Nuxt.js SSR Application''
      | Svelte \<Rightarrow>
          if truthy (allDeps ''svelte-kit'') then ''SvelteKit Application''
          else ''Svelte Application''
      | _ \<Rightarrow>
          if list_ex (\<lambda>s. str_includes s ''index.html'') structure then ''Traditional Web Application''
          else if list_ex (\<lambda>s. str_includes s ''.php'') structure then ''PHP Application''
          else ''Unknown Project Type'')"

text \<open>
  \<open>{ ...dependencies, ...devDependencies }\<close> is the map of \<open>dependencies\<close> overridden by
  \<open>devDependencies\<close>.
\<close>

definition combinedDeps :: "analysis \<Rightarrow> (string \<rightharpoonup> string)" where
  "combinedDeps a = dependencies a ++ devDependencies a"

definition detectFrameworkAndType :: "analysis \<Rightarrow> analysis" where
  "detectFrameworkAndType a =
     (let allDeps = combinedDeps a;
          a1 = a\<lparr>framework := detect_loop frameworkIndicators allDeps (framework a)\<rparr>;
          a2 = (if framework a1 = NoFramework then a1\<lparr>framework := Traditional\<rparr> else a1)
      in a2\<lparr>projectType := determineProjectType a2 allDeps\<rparr>)"

text \<open>
  The detection rule in the words of the specification: a row matches when its indicator list
  intersects the key set of the combined map.
\<close>

definition spec_detectFramework :: "(string \<rightharpoonup> string) \<Rightarrow> framework" where
  "spec_detectFramework allDeps =
     (case find (\<lambda>(f, indicators). list_ex (\<lambda>indicator. allDeps indicator \<noteq> None) indicators)
             frameworkIndicators of
        Some (f, indicators) \<Rightarrow> f
      | None \<Rightarrow> Traditional)"

text \<open>The record \<open>deepAnalysis\<close> starts from; its date is the clock reading of the call.\<close>

definition initial_analysis :: "string \<Rightarrow> analysis" where
  "initial_analysis now =
     \<lparr> projectType = ''unknown'', framework = NoFramework, hasPackageJson = False,
       dependencies = Map.empty, devDependencies = Map.empty, dependenciesInstalled = False,
       cypressInstalled = False, projectStructure = [], entryPoints = [], testFiles = [],
       buildTools = [], executableScripts = [], analysisDate = now, scripts = None,
       packageJson = None, testingFrameworks = None, buildScripts = None \<rparr>"

section \<open>Project Analyzer: structural scan\<close>

definition endsWith :: "string \<Rightarrow> string \<Rightarrow> bool" where
  "endsWith s t = startsWith (rev s) (rev t)"

text \<open>
  \<open>path.join\<close> on two arguments that are normalised already: empty arguments are dropped and
  the rest is joined by the separator.
\<close>

definition path_join :: "string \<Rightarrow> string \<Rightarrow> string" where
  "path_join a b = (if a = [] then b else if b = [] then a else a @ ''/'' @ b)"

text \<open>
  \<open>path.extname\<close> of a file name: the name from its last dot on, and empty when there is no
  dot, when the last dot comes first, or for the name \<open>..\<close>.
\<close>

fun last_dot :: "string \<Rightarrow> nat option" where
  "last_dot [] = None"
| "last_dot (c # s) =
     (case last_dot s of
        Some i \<Rightarrow> Some (i + 1)
      | None \<Rightarrow> if c = CHR ''.'' then Some 0 else None)"

definition extname :: "string \<Rightarrow> string" where
  "extname p =
     (case last_dot p of
        None \<Rightarrow> []
      | Some i \<Rightarrow> if i = 0 \<or> p = ''..'' then [] else drop i p)"

record fsStat =
  isDirectory :: bool
  isFile :: bool
  stat_size :: nat

datatype completion = Normal | Throw string

text \<open>
  The calls into \<open>fs-extra\<close>, for any type \<open>'fs\<close> of filesystem states. A read that throws
  gives \<open>None\<close>; a write completes normally or throws, and leaves a state either way.
\<close>

record 'fs fileSystem =
  readdir :: "string \<Rightarrow> 'fs \<Rightarrow> string list option"
  stat :: "string \<Rightarrow> 'fs \<Rightarrow> fsStat option"
  remove :: "string \<Rightarrow> 'fs \<Rightarrow> completion \<times> 'fs"
  ensureDir :: "string \<Rightarrow> 'fs \<Rightarrow> completion \<times> 'fs"
  writeFile :: "string \<Rightarrow> string \<Rightarrow> 'fs \<Rightarrow> completion \<times> 'fs"

definition isImportantDirectory :: "string \<Rightarrow> bool" where
  "isImportantDirectory dirName =
     (let importantDirs = [''src'', ''app'', ''components'', ''pages'', ''public'', ''tests'',
                           ''cypress'', ''e2e'', ''spec'', ''features'']
      in dirName \<in> set importantDirs)"

definition isImportantFile :: "string \<Rightarrow> bool" where
  "isImportantFile fileName =
     (let importantFiles = [''package.json'', ''README.md'', ''index.html'', ''app.js'', ''main.js'',
                            ''index.js'', ''App.jsx'', ''App.tsx''];
          importantExtensions = [''.js'', ''.jsx'', ''.ts'', ''.tsx'', ''.vue'', ''.svelte'']
      in fileName \<in> set importantFiles \<or> list_ex (\<lambda>ext. endsWith fileName ext) importantExtensions)"

text \<open>
  \<open>analyzeProjectStructure\<close> and the loop over the items of one directory. The pushes onto
  \<open>analysis.projectStructure\<close> are threaded through as the list \<open>structure\<close>. A
  \<open>readdir\<close> that throws leaves the list as it is; a \<open>stat\<close> that throws skips the item.
\<close>

function analyzeProjectStructure :: "'fs fileSystem \<Rightarrow> 'fs \<Rightarrow> string \<Rightarrow> string \<Rightarrow> nat
      \<Rightarrow> structureEntry list \<Rightarrow> structureEntry list"
  and scan_items :: "'fs fileSystem \<Rightarrow> 'fs \<Rightarrow> string \<Rightarrow> string \<Rightarrow> nat \<Rightarrow> string list
      \<Rightarrow> structureEntry list \<Rightarrow> structureEntry list" where
  "analyzeProjectStructure io fs repoPath currentPath depth structure =
     (if depth > 3 then structure
      else case readdir io (path_join repoPath currentPath) fs of
             None \<Rightarrow> structure
           | Some items \<Rightarrow> scan_items io fs repoPath currentPath depth items structure)"
| "scan_items io fs repoPath currentPath depth [] structure = structure"
| "scan_items io fs repoPath currentPath depth (item # rest) structure =
     (if startsWith item ''.'' \<or> item = ''node_modules'' \<or> item = ''.git''
      then scan_items io fs repoPath currentPath depth rest structure
      else
        let itemPath = path_join currentPath item;
            fullItemPath = path_join repoPath itemPath
        in case stat io fullItemPath fs of
             None \<Rightarrow> scan_items io fs repoPath currentPath depth rest structure
           | Some st \<Rightarrow>
               if isDirectory st then
                 let structure1 = structure @
                       [\<lparr> item_type = Directory, item_path = itemPath, item_depth = Some depth,
                          item_extension = None, item_size = None,
                          important = isImportantDirectory item \<rparr>]
                 in if depth < 2 \<or> isImportantDirectory item
                    then scan_items io fs repoPath currentPath depth rest
                           (analyzeProjectStructure io fs repoPath itemPath (depth + 1) structure1)
                    else scan_items io fs repoPath currentPath depth rest structure1
               else if isFile st \<and> depth \<le> 2 then
                 scan_items io fs repoPath currentPath depth rest
                   (structure @
                      [\<lparr> item_type = File, item_path = itemPath, item_depth = None,
                         item_extension = Some (extname item), item_size = Some (stat_size st),
                         important = isImportantFile item \<rparr>])
               else scan_items io fs repoPath currentPath depth rest structure)"
  by pat_completeness auto
termination
  by (relation "measures
      [\<lambda>x. case x of
          Inl (io, fs, repoPath, currentPath, depth, structure) \<Rightarrow>
            (if depth > 3 then 0 else 2 * (4 - depth) + 1)
        | Inr (io, fs, repoPath, currentPath, depth, items, structure) \<Rightarrow>
            (if depth > 3 then 1 else 2 * (4 - depth)),
       \<lambda>x. case x of
          Inl (io, fs, repoPath, currentPath, depth, structure) \<Rightarrow> 0
        | Inr (io, fs, repoPath, currentPath, depth, items, structure) \<Rightarrow> length items]")
     auto


declare analyzeProjectStructure.simps [simp del] scan_items.simps(2) [simp del]

text \<open>The segments of a relative path: its pieces between separators.\<close>

fun split_slash :: "string \<Rightarrow> string list" where
  "split_slash [] = [[]]"
| "split_slash (c # s) =
     (if c = CHR ''/'' then [] # split_slash s
      else case split_slash s of [] \<Rightarrow> [[c]] | h # t \<Rightarrow> (c # h) # t)"

definition segments :: "string \<Rightarrow> string list" where
  "segments p = (if p = [] then [] else split_slash p)"

definition skipped :: "string \<Rightarrow> bool" where
  "skipped item = (startsWith item ''.'' \<or> item = ''node_modules'' \<or> item = ''.git'')"

definition valid_name :: "string \<Rightarrow> bool" where
  "valid_name n = (n \<noteq> [] \<and> CHR ''/'' \<notin> set n)"

definition well_formed_names :: "'fs fileSystem \<Rightarrow> 'fs \<Rightarrow> bool" where
  "well_formed_names io fs =
     (\<forall>dir names. readdir io dir fs = Some names \<longrightarrow> (\<forall>n \<in> set names. valid_name n))"

definition scan_ok :: "structureEntry \<Rightarrow> bool" where
  "scan_ok e =
     (let segs = segments (item_path e) in
      (\<forall>seg \<in> set segs. \<not> skipped seg)
      \<and> 1 \<le> length segs \<and> length segs \<le> 4
      \<and> (item_type e = File \<longrightarrow> length segs \<le> 3)
      \<and> (item_type e = Directory \<longrightarrow> item_depth e = Some (length segs - 1)
            \<and> important e = isImportantDirectory (last segs))
      \<and> (length segs = 4 \<longrightarrow> item_type e = Directory \<and> isImportantDirectory (segs ! 2)))"

definition scan_position :: "string \<Rightarrow> nat \<Rightarrow> bool" where
  "scan_position cur d =
     (length (segments cur) = d \<and> (\<forall>seg \<in> set (segments cur). \<not> skipped seg)
      \<and> (3 \<le> d \<longrightarrow> isImportantDirectory (segments cur ! 2)))"

text \<open>
  An entry at depth 3 has a flagged ancestor in a list of entries when the list holds a directory
  entry for its parent path that is flagged important.
\<close>

definition flagged_dir_at :: "string list \<Rightarrow> structureEntry \<Rightarrow> bool" where
  "flagged_dir_at segs anc =
     (item_type anc = Directory \<and> segments (item_path anc) = segs \<and> important anc)"

definition flagged_ancestor :: "structureEntry list \<Rightarrow> structureEntry \<Rightarrow> bool" where
  "flagged_ancestor entries e =
     (length (segments (item_path e)) = 4
      \<longrightarrow> list_ex (flagged_dir_at (butlast (segments (item_path e)))) entries)"

definition ancestor_listed :: "string \<Rightarrow> nat \<Rightarrow> structureEntry list \<Rightarrow> bool" where
  "ancestor_listed cur d entries = (d = 3 \<longrightarrow> list_ex (flagged_dir_at (segments cur)) entries)"

section \<open>Test Spec Generator\<close>

text \<open>
  The four template bodies of \<open>specTemplates\<close> are text constants; the generator is modelled
  for any four texts.
\<close>

record specTemplates =
  basic :: string
  navigation :: string
  forms :: string
  api :: string

record generatedSpec =
  spec_name :: string
  spec_type :: "string option"
  spec_content :: string
  spec_path :: string

text \<open>
  \<open>selectSpecType\<close>. With an empty pattern list the index is \<open>i % 0\<close>, which is
  \<open>NaN\<close>, and the read gives \<open>undefined\<close>: that is \<open>None\<close> here.
\<close>

definition selectSpecType :: "strategy \<Rightarrow> nat \<Rightarrow> string option" where
  "selectSpecType s index =
     (let availableTypes = testPatterns s in
      if length availableTypes = 0 then None
      else Some (availableTypes ! (index mod length availableTypes)))"

definition templateMap :: "specTemplates \<Rightarrow> (string \<times> string) list" where
  "templateMap tpl =
     [(''component-testing'', basic tpl), (''navigation-testing'', navigation tpl),
      (''form-testing'', forms tpl), (''api-testing'', api tpl),
      (''user-interactions'', basic tpl), (''state-changes'', basic tpl),
      (''default'', basic tpl)]"

text \<open>How a template literal prints a value that may be \<open>undefined\<close>.\<close>

definition print_type :: "string option \<Rightarrow> string" where
  "print_type t = (case t of None \<Rightarrow> ''undefined'' | Some s \<Rightarrow> s)"

text \<open>
  \<open>templateMap\<close> and \<open>specTypes\<close> are plain objects, and a read \<open>object[key]\<close> of a key
  the object does not own goes on to \<open>Object.prototype\<close>. These are the names it finds there;
  each of them reads as a function, and \<open>__proto__\<close> as the prototype object: truthy values
  that are not strings.
\<close>

definition inherited_members :: "string list" where
  "inherited_members =
     [''constructor'', ''__defineGetter__'', ''__defineSetter__'', ''hasOwnProperty'',
      ''__lookupGetter__'', ''__lookupSetter__'', ''isPrototypeOf'', ''propertyIsEnumerable'',
      ''toString'', ''valueOf'', ''__proto__'', ''toLocaleString'']"

text \<open>
  What \<open>getBaseTemplate\<close> returns: the text of a template, or the inherited member of the
  given name.
\<close>

datatype baseTemplate = Text string | Inherited string

definition getBaseTemplate :: "specTemplates \<Rightarrow> string option \<Rightarrow> baseTemplate" where
  "getBaseTemplate tpl specType =
     (case map_of (templateMap tpl) (print_type specType) of
        Some t \<Rightarrow> if t \<noteq> [] then Text t else Text (basic tpl)
      | None \<Rightarrow> if print_type specType \<in> set inherited_members
                  then Inherited (print_type specType)
                  else Text (basic tpl))"

text \<open>\<open>String.prototype.replace\<close> with a string pattern: the first occurrence only.\<close>

fun replace_first :: "string \<Rightarrow> string \<Rightarrow> string \<Rightarrow> string" where
  "replace_first [] pat rep = (if pat = [] then rep else [])"
| "replace_first (c # s) pat rep =
     (if startsWith (c # s) pat then rep @ drop (length pat) (c # s)
      else c # replace_first s pat rep)"

definition newline :: string where
  "newline = [CHR 0x0A]"

text \<open>
  \<open>customizeTemplate\<close>. For react, vue and angular it calls \<open>customized.replace\<close>, which an
  inherited member does not have: that call throws a \<open>TypeError\<close>. For the other frameworks
  the template is only concatenated to the comment, where an inherited member is printed as the
  engine prints it; that text is implementation-defined and is the parameter \<open>printed\<close>.
\<close>

definition customizeTemplate :: "(string \<Rightarrow> string) \<Rightarrow> string \<Rightarrow> baseTemplate \<Rightarrow> analysis
    \<Rightarrow> string option \<Rightarrow> nat \<Rightarrow> string outcome" where
  "customizeTemplate printed now template a specType index =
     (let comment = ''// Spec generado autom'' @ [CHR 0xC3, CHR 0xA1]
              @ ''ticamente por Cypress Autonomous Agent'' @ newline
              @ ''// Tipo: '' @ print_type specType @ newline
              @ ''// Framework: '' @ framework_name (framework a) @ newline
              @ ''// Proyecto: '' @ projectType a @ newline
              @ ''// Fecha: '' @ now @ newline @ newline
      in if framework a = React \<or> framework a = Vue \<or> framework a = Angular then
           (case template of
              Inherited member \<Rightarrow> Raised ''customized.replace is not a function''
            | Text t \<Rightarrow>
                Returned (comment @
                  (if framework a = React then replace_first t ''Bienvenido'' ''React App''
                   else if framework a = Vue then replace_first t ''Bienvenido'' ''Vue App''
                   else replace_first t ''Bienvenido'' ''Angular App'')))
         else
           (case template of
              Inherited member \<Rightarrow> Returned (comment @ printed member)
            | Text t \<Rightarrow> Returned (comment @ t)))"

definition generateSpecContent :: "specTemplates \<Rightarrow> (string \<Rightarrow> string) \<Rightarrow> string \<Rightarrow> string option
    \<Rightarrow> analysis \<Rightarrow> nat \<Rightarrow> string outcome" where
  "generateSpecContent tpl printed now specType a index =
     (let baseTemplate = getBaseTemplate tpl specType
      in customizeTemplate printed now baseTemplate a specType index)"

text \<open>
  The body of the loop of \<open>generateTestSpecs\<close> for index \<open>i\<close>; \<open>clock i\<close> is the time
  read while spec \<open>i\<close> is customized. A throw of \<open>generateSpecContent\<close> leaves the loop and
  the function.
\<close>

definition make_spec :: "specTemplates \<Rightarrow> (string \<Rightarrow> string) \<Rightarrow> (nat \<Rightarrow> string) \<Rightarrow> analysis
    \<Rightarrow> strategy \<Rightarrow> nat \<Rightarrow> generatedSpec outcome" where
  "make_spec tpl printed clock a s i =
     (let specType = selectSpecType s i in
      case generateSpecContent tpl printed (clock i) specType a i of
        Raised message \<Rightarrow> Raised message
      | Returned specContent \<Rightarrow>
          Returned \<lparr> spec_name = ''generated-spec-'' @ string_of_nat (i + 1) @ ''.cy.js'',
                     spec_type = specType,
                     spec_content = specContent,
                     spec_path = ''cypress/e2e/generated-spec-'' @ string_of_nat (i + 1)
                                   @ ''.cy.js'' \<rparr>)"

function generate_loop :: "specTemplates \<Rightarrow> (string \<Rightarrow> string) \<Rightarrow> (nat \<Rightarrow> string) \<Rightarrow> analysis
    \<Rightarrow> strategy \<Rightarrow> nat \<Rightarrow> generatedSpec list \<Rightarrow> generatedSpec list outcome" where
  "generate_loop tpl printed clock a s i specs =
     (if int i < recommendedSpecs s
      then (case make_spec tpl printed clock a s i of
              Raised message \<Rightarrow> Raised message
            | Returned spec \<Rightarrow> generate_loop tpl printed clock a s (i + 1) (specs @ [spec]))
      else Returned specs)"
  by pat_completeness auto
termination
  by (relation "measure (\<lambda>(tpl, printed, clock, a, s, i, specs). nat (recommendedSpecs s - int i))")
     auto

declare generate_loop.simps [simp del]

definition generateTestSpecs :: "specTemplates \<Rightarrow> (string \<Rightarrow> string) \<Rightarrow> (nat \<Rightarrow> string)
    \<Rightarrow> analysis \<Rightarrow> strategy \<Rightarrow> generatedSpec list outcome" where
  "generateTestSpecs tpl printed clock a s = generate_loop tpl printed clock a s 0 []"

text \<open>
  The histogram \<open>specTypes\<close> of the summary, as a map from keys to values. The update is
  \<open>specTypes[type] = (specTypes[type] || 0) + 1\<close>: an own count is incremented; a key not yet
  owned starts at 1, unless the read finds an inherited member, whose sum with 1 is the text
  printed for it followed by \<open>1\<close>, and later sums append further \<open>1\<close>s; an assignment of a
  text to \<open>__proto__\<close> is ignored.
\<close>

datatype tally = Count nat | Appended string

definition count_type :: "(string \<Rightarrow> string) \<Rightarrow> (string \<rightharpoonup> tally) \<Rightarrow> string \<Rightarrow> (string \<rightharpoonup> tally)" where
  "count_type printed h t =
     (case h t of
        Some (Count c) \<Rightarrow> h(t \<mapsto> Count (c + 1))
      | Some (Appended text) \<Rightarrow> h(t \<mapsto> Appended (text @ ''1''))
      | None \<Rightarrow>
          if t = ''__proto__'' then h
          else if t \<in> set inherited_members then h(t \<mapsto> Appended (printed t @ ''1''))
          else h(t \<mapsto> Count 1))"

record specSummary =
  totalSpecs :: nat
  specTypes :: "string \<rightharpoonup> tally"
  estimatedExecutionTime :: nat
  summary_focusAreas :: "string list"

definition generateSpecSummary :: "(string \<Rightarrow> string) \<Rightarrow> generatedSpec list \<Rightarrow> strategy \<Rightarrow> specSummary" where
  "generateSpecSummary printed specs s =
     \<lparr> totalSpecs = length specs,
       specTypes = foldl (\<lambda>h spec. count_type printed h (print_type (spec_type spec)))
                     Map.empty specs,
       estimatedExecutionTime = length specs * 30,
       summary_focusAreas = focusAreas s \<rparr>"

section \<open>Project Analyzer: deep analysis\<close>

text \<open>
  The sub-steps of the analysis that only the filesystem decides (manifest, installed
  dependencies, entry points, existing tests, build tools), the repository acquisition and the
  clock are taken as parameters, as is the text the engine prints for an inherited member. A
  sub-step gets the repository path, the filesystem and the record, and ends normally or by a
  throw, having changed the record up to that point.
  \<open>cloneAndAnalyze\<close> and \<open>checkCypressSetup\<close> catch what their bodies throw and always
  return a result; a failed acquisition is the result \<open>{ success: false, error }\<close>.
\<close>

type_synonym 'fs substep = "string \<Rightarrow> 'fs \<Rightarrow> analysis \<Rightarrow> completion \<times> analysis"

datatype cloneResult =
  Cloned (clone_repoPath: string) (clone_repoName: string) (clone_dependenciesInstalled: bool)
| CloneFailed string

record cypressCheck =
  check_hasPackageJson :: bool
  hasCypressDependency :: bool
  hasCypressConfig :: bool
  cypressConfigPath :: "string option"

record 'fs collaborators =
  cloneAndAnalyze :: "string \<Rightarrow> 'fs \<Rightarrow> cloneResult \<times> 'fs"
  checkCypressSetup :: "string \<Rightarrow> 'fs \<Rightarrow> cypressCheck"
  analyzePackageJson :: "'fs substep"
  analyzeInstalledDependencies :: "'fs substep"
  findEntryPoints :: "'fs substep"
  findExistingTests :: "'fs substep"
  analyzeBuildTools :: "'fs substep"
  readClock :: "nat \<Rightarrow> string"
  templateTable :: specTemplates
  printInherited :: "string \<Rightarrow> string"

text \<open>Statements in sequence: the first throw ends the run, with the record as it then is.\<close>

fun run_steps :: "(analysis \<Rightarrow> completion \<times> analysis) list \<Rightarrow> analysis \<Rightarrow> completion \<times> analysis" where
  "run_steps [] a = (Normal, a)"
| "run_steps (step # rest) a =
     (case step a of
        (Normal, a') \<Rightarrow> run_steps rest a'
      | (Throw message, a') \<Rightarrow> (Throw message, a'))"

text \<open>The seven statements of the \<open>try\<close> block of \<open>deepAnalysis\<close>, in their order.\<close>

definition deep_steps :: "'fs fileSystem \<Rightarrow> 'fs collaborators \<Rightarrow> 'fs \<Rightarrow> string
    \<Rightarrow> (analysis \<Rightarrow> completion \<times> analysis) list" where
  "deep_steps io ext fs repoPath =
     [analyzePackageJson ext repoPath fs,
      analyzeInstalledDependencies ext repoPath fs,
      (\<lambda>a. (Normal, a\<lparr>projectStructure :=
                analyzeProjectStructure io fs repoPath [] 0 (projectStructure a)\<rparr>)),
      (\<lambda>a. (Normal, detectFrameworkAndType a)),
      findEntryPoints ext repoPath fs,
      findExistingTests ext repoPath fs,
      analyzeBuildTools ext repoPath fs]"

definition deepAnalysis :: "'fs fileSystem \<Rightarrow> 'fs collaborators \<Rightarrow> 'fs \<Rightarrow> string \<Rightarrow> string
    \<Rightarrow> analysis outcome" where
  "deepAnalysis io ext fs repoPath now =
     (let analysis = initial_analysis now in
      case run_steps (deep_steps io ext fs repoPath) analysis of
        (Normal, analysis') \<Rightarrow> Returned analysis'
      | (Throw message, analysis') \<Rightarrow> Returned analysis')"

section \<open>Saving the specs\<close>

fun write_specs :: "'fs fileSystem \<Rightarrow> string \<Rightarrow> generatedSpec list \<Rightarrow> 'fs \<Rightarrow> completion \<times> 'fs" where
  "write_specs io outputPath [] fs = (Normal, fs)"
| "write_specs io outputPath (spec # rest) fs =
     (let specPath = path_join outputPath (spec_name spec) in
      case writeFile io specPath (spec_content spec) fs of
        (Normal, fs') \<Rightarrow> write_specs io outputPath rest fs'
      | (Throw message, fs') \<Rightarrow> (Throw message, fs'))"

definition saveSpecsToDisk :: "'fs fileSystem \<Rightarrow> generatedSpec list \<Rightarrow> string \<Rightarrow> 'fs \<Rightarrow> bool \<times> 'fs" where
  "saveSpecsToDisk io specs outputPath fs =
     (case ensureDir io outputPath fs of
        (Throw message, fs1) \<Rightarrow> (False, fs1)
      | (Normal, fs1) \<Rightarrow>
          (case write_specs io outputPath specs fs1 of
             (Throw message, fs2) \<Rightarrow> (False, fs2)
           | (Normal, fs2) \<Rightarrow> (True, fs2)))"

section \<open>Pipeline Controller\<close>

record agent =
  tempDir :: string
  outputDir :: string

text \<open>
  The constructor joins the working directory and a name with \<open>path.join\<close>, which also
  normalises its result; the join is the parameter \<open>join\<close>.
\<close>

definition new_agent :: "(string \<Rightarrow> string \<Rightarrow> string) \<Rightarrow> string \<Rightarrow> agent" where
  "new_agent join cwd = \<lparr> tempDir = join cwd ''temp-repos'',
                          outputDir = join cwd ''generated-specs'' \<rparr>"

text \<open>
  \<open>cleanup\<close>. The path is \<open>null\<close> (\<open>None\<close>) or a string; the guard is the truthiness of the
  path and the prefix test. A throw of \<open>fs.remove\<close> is caught and logged.
\<close>

definition cleanup :: "'fs fileSystem \<Rightarrow> agent \<Rightarrow> string option \<Rightarrow> 'fs \<Rightarrow> completion \<times> 'fs" where
  "cleanup io ag tempPath fs =
     (case (case tempPath of
              None \<Rightarrow> (Normal, fs)
            | Some p \<Rightarrow> if p \<noteq> [] \<and> startsWith p (tempDir ag) then remove io p fs
                        else (Normal, fs)) of
        (Normal, fs') \<Rightarrow> (Normal, fs')
      | (Throw message, fs') \<Rightarrow> (Normal, fs'))"

record successEnvelope =
  repository :: string
  envelope_analysis :: analysis
  envelope_cypressCheck :: cypressCheck
  envelope_strategy :: strategy
  generatedSpecs :: "generatedSpec list"
  envelope_specSummary :: specSummary
  specsSaved :: bool
  envelope_outputPath :: string
  envelope_tempPath :: "string option"
  timestamp :: string

datatype envelope = Success successEnvelope | Failure (error_message: string) (failed_repository: string)

fun success :: "envelope \<Rightarrow> bool" where
  "success (Success e) = True"
| "success (Failure message url) = False"

text \<open>The \<open>catch\<close> block of \<open>processRepository\<close>.\<close>

definition on_error :: "'fs fileSystem \<Rightarrow> agent \<Rightarrow> string \<Rightarrow> string \<Rightarrow> string option \<Rightarrow> 'fs
    \<Rightarrow> envelope \<times> 'fs" where
  "on_error io ag githubUrl message tempPath fs =
     (let fs' = (case tempPath of
                   None \<Rightarrow> fs
                 | Some p \<Rightarrow> if p \<noteq> [] then snd (cleanup io ag tempPath fs) else fs)
      in (Failure message githubUrl, fs'))"

definition processRepository :: "'fs fileSystem \<Rightarrow> 'fs collaborators \<Rightarrow> agent \<Rightarrow> string \<Rightarrow> 'fs
    \<Rightarrow> envelope \<times> 'fs" where
  "processRepository io ext ag githubUrl fs =
     (case cloneAndAnalyze ext githubUrl fs of
        (CloneFailed err, fs1) \<Rightarrow>
          on_error io ag githubUrl (''Error clonando: '' @ err) None fs1
      | (Cloned repoPath repoName installed, fs1) \<Rightarrow>
          (let tempPath = Some repoPath in
           case deepAnalysis io ext fs1 repoPath (readClock ext 0) of
             Raised message \<Rightarrow> on_error io ag githubUrl message tempPath fs1
           | Returned analysis \<Rightarrow>
               (let check = checkCypressSetup ext repoPath fs1;
                    strategy = generateStrategy analysis
                in case generateTestSpecs (templateTable ext) (printInherited ext)
                          (\<lambda>i. readClock ext (i + 1)) analysis strategy of
                     Raised message \<Rightarrow> on_error io ag githubUrl message tempPath fs1
                   | Returned specs \<Rightarrow>
                       (let (saved, fs2) = saveSpecsToDisk io specs (outputDir ag) fs1;
                            summary = generateSpecSummary (printInherited ext) specs strategy
                        in (Success \<lparr> repository = githubUrl, envelope_analysis = analysis,
                               envelope_cypressCheck = check, envelope_strategy = strategy,
                               generatedSpecs = specs, envelope_specSummary = summary,
                               specsSaved = saved, envelope_outputPath = outputDir ag,
                               envelope_tempPath = tempPath,
                               timestamp = readClock ext (length specs + 1) \<rparr>, fs2)))))"

section \<open>Example inputs\<close>

definition plain_file :: "string \<Rightarrow> structureEntry" where
  "plain_file p = \<lparr> item_type = File, item_path = p, item_depth = None,
     item_extension = Some (extname p), item_size = Some 10, important = isImportantFile p \<rparr>"

text \<open>
  A react project with one entry point and \<open>n\<close> files \<open>x.js\<close>, \<open>xx.js\<close>,
  \<open>xxx.js\<close>, ... at its root.
\<close>

definition react_project :: "nat \<Rightarrow> analysis" where
  "react_project n = (initial_analysis ''2024-01-01T00:00:00.000Z'')
     \<lparr> dependencies := [''react'' \<mapsto> ''^18.0.0''],
       projectStructure := map (\<lambda>i. plain_file (replicate (Suc i) CHR ''x'' @ ''.js'')) [0 ..< n],
       entryPoints := [\<lparr> entry_path = ''index.html'', entry_exists = True \<rparr>] \<rparr>"


definition empty_version_project :: analysis where
  "empty_version_project = (initial_analysis ''2024-01-01T00:00:00.000Z'')
     \<lparr> dependencies := [''react'' \<mapsto> []] \<rparr>"

definition vue_nuxt_project :: analysis where
  "vue_nuxt_project = (initial_analysis ''2024-01-01T00:00:00.000Z'')
     \<lparr> dependencies := [''nuxt'' \<mapsto> ''^3.0.0''], devDependencies := [''svelte'' \<mapsto> ''^4.0.0''] \<rparr>"

definition example_templates :: specTemplates where
  "example_templates = \<lparr> basic = ''cy.contains(Bienvenido)'', navigation = ''cy.get(nav a)'',
     forms = ''cy.get(form)'', api = ''cy.intercept(GET)'' \<rparr>"

text \<open>The text an engine such as V8 prints for an inherited member.\<close>

definition example_printed :: "string \<Rightarrow> string" where
  "example_printed member =
     (if member = ''__proto__'' then ''[object Object]''
      else ''function '' @ (if member = ''constructor'' then ''Object'' else member)
             @ ''() { [native code] }'')"

definition example_clock :: "nat \<Rightarrow> string" where
  "example_clock i = ''2024-01-01T00:00:0'' @ string_of_nat (i mod 10) @ ''.000Z''"

text \<open>
  A filesystem with a small project under \<open>base\<close>. Its state is the trace of the writes
  made so far; removing a path that contains \<open>locked\<close> throws, and every write of a file
  throws.
\<close>

definition example_dirs :: "string \<Rightarrow> (string \<times> string list) list" where
  "example_dirs base =
     [(base, [''a'', ''.git'', ''node_modules'', ''README.md'']),
      (base @ ''/a'', [''b'']),
      (base @ ''/a/b'', [''src'', ''lib'']),
      (base @ ''/a/b/src'', [''utils'', ''x.js'']),
      (base @ ''/a/b/src/utils'', [''more'']),
      (base @ ''/a/b/lib'', [''deep'']),
      (base @ ''/.git'', [''HEAD'']),
      (base @ ''/node_modules'', [''react''])]"

definition example_files :: "string \<Rightarrow> (string \<times> nat) list" where
  "example_files base = [(base @ ''/README.md'', 120), (base @ ''/a/b/src/x.js'', 40)]"

definition example_io :: "string \<Rightarrow> string list fileSystem" where
  "example_io base =
     \<lparr> readdir = (\<lambda>p trace. map_of (example_dirs base) p),
       stat = (\<lambda>p trace.
         if map_of (example_dirs base) p \<noteq> None
         then Some \<lparr> isDirectory = True, isFile = False, stat_size = 4096 \<rparr>
         else case map_of (example_files base) p of
                Some n \<Rightarrow> Some \<lparr> isDirectory = False, isFile = True, stat_size = n \<rparr>
              | None \<Rightarrow> None),
       remove = (\<lambda>p trace. if str_includes p ''locked'' then (Throw ''EPERM'', trace)
                           else (Normal, trace @ [''remove '' @ p])),
       ensureDir = (\<lambda>p trace. (Normal, trace @ [''ensureDir '' @ p])),
       writeFile = (\<lambda>p c trace. (Throw ''ENOSPC'', trace @ [''writeFile '' @ p])) \<rparr>"

definition example_check :: cypressCheck where
  "example_check = \<lparr> check_hasPackageJson = True, hasCypressDependency = False,
     hasCypressConfig = False, cypressConfigPath = None \<rparr>"

text \<open>
  Collaborators for it: every non-empty URL clones to \<open>base\<close>, the manifest declares react,
  and \<open>findEntryPoints\<close> throws when the flag is set.
\<close>

definition example_ext :: "string \<Rightarrow> bool \<Rightarrow> string list collaborators" where
  "example_ext base entryPointsFail =
     \<lparr> cloneAndAnalyze = (\<lambda>url trace.
         if url = [] then (CloneFailed ''repository not found'', trace)
         else (Cloned base ''demo-app-1'' True, trace @ [''clone '' @ url])),
       checkCypressSetup = (\<lambda>p trace. example_check),
       analyzePackageJson = (\<lambda>p trace a.
         (Normal, a\<lparr>hasPackageJson := True, dependencies := [''react'' \<mapsto> ''^18.0.0'']\<rparr>)),
       analyzeInstalledDependencies = (\<lambda>p trace a. (Normal, a)),
       findEntryPoints = (\<lambda>p trace a.
         if entryPointsFail then (Throw ''EACCES'', a)
         else (Normal, a\<lparr>entryPoints := [\<lparr> entry_path = ''index.html'', entry_exists = True \<rparr>]\<rparr>)),
       findExistingTests = (\<lambda>p trace a. (Normal, a)),
       analyzeBuildTools = (\<lambda>p trace a. (Normal, a\<lparr>buildTools := []\<rparr>)),
       readClock = example_clock,
       templateTable = example_templates,
       printInherited = example_printed \<rparr>"

text \<open>A run of the controller from the working directory \<open>/work\<close>.\<close>

definition demo_agent :: agent where
  "demo_agent = new_agent path_join ''/work''"

definition demo_io :: "string list fileSystem" where
  "demo_io = example_io ''/work/temp-repos/demo-app-1''"

definition demo_ext :: "string list collaborators" where
  "demo_ext = example_ext ''/work/temp-repos/demo-app-1'' False"

text \<open>What an envelope says about the save, when it says anything.\<close>

fun reported_specsSaved :: "envelope \<Rightarrow> bool option" where
  "reported_specsSaved (Success e) = Some (specsSaved e)"
| "reported_specsSaved (Failure message url) = None"

definition partial_record :: analysis where
  "partial_record = detectFrameworkAndType
     ((initial_analysis ''2024'')
        \<lparr> hasPackageJson := True, dependencies := [''react'' \<mapsto> ''^18.0.0''],
          projectStructure := analyzeProjectStructure (example_io ''/repo'') [] ''/repo'' [] 0 [] \<rparr>)"

section \<open>Properties of the Test Strategy Engine\<close>

lemma calculateRecommendedSpecs_closed:
  "calculateRecommendedSpecs a =
     3 + (int (min (length (projectStructure a)) 150) + 25 * int (length (entryPoints a))) div 50"
proof -
  define n where "n = length (projectStructure a)"
  define m where "m = length (entryPoints a)"
  have min_eq: "min (of_nat n / 50) (3 :: rat) = of_nat (min n 150) / 50"
    by (cases "n \<le> 150") (simp_all add: min_def)
  have "(3 :: rat) + of_nat (min n 150) / 50 + of_nat m * (1 / 2)
          = of_int (3 * 50 + (int (min n 150) + 25 * int m)) / of_int 50"
    by (simp add: field_simps)
  then have "\<lfloor>(3 :: rat) + of_nat (min n 150) / 50 + of_nat m * (1 / 2)\<rfloor>
          = (3 * 50 + (int (min n 150) + 25 * int m)) div 50"
    by (simp only: floor_divide_of_int_eq)
  also have "\<dots> = 3 + (int (min n 150) + 25 * int m) div 50"
    by simp
  finally have fl: "\<lfloor>(3 :: rat) + of_nat (min n 150) / 50 + of_nat m * (1 / 2)\<rfloor>
          = 3 + (int (min n 150) + 25 * int m) div 50" .
  have "0 \<le> (int (min n 150) + 25 * int m) div 50"
    by (simp add: pos_imp_zdiv_nonneg_iff)
  then show ?thesis
    unfolding calculateRecommendedSpecs_def Let_def n_def [symmetric] m_def [symmetric] min_eq fl
    by simp
qed

lemma recommendedSpecs_generateStrategy:
  "recommendedSpecs (generateStrategy a) = calculateRecommendedSpecs a"
  by (simp add: generateStrategy_def Let_def profile.defs strategy.defs)

text \<open>
  Claim C1. For every analysis the recommended spec count is
  \<open>max(3, floor(3 + min(|projectStructure| / 50, 3) + |entryPoints| * 0.5))\<close>, and it is at
  least 3, however sparse the analysis.
\<close>

theorem C1_recommendedSpecs_formula_floor:
  "recommendedSpecs (generateStrategy a) =
     max 3 \<lfloor>(3 :: rat) + min (of_nat (length (projectStructure a)) / 50) 3
                 + of_nat (length (entryPoints a)) * (1 / 2)\<rfloor>
   \<and> 3 \<le> recommendedSpecs (generateStrategy a)"
proof -
  have "calculateRecommendedSpecs a =
     max 3 \<lfloor>(3 :: rat) + min (of_nat (length (projectStructure a)) / 50) 3
                 + of_nat (length (entryPoints a)) * (1 / 2)\<rfloor>"
    by (simp add: calculateRecommendedSpecs_def Let_def)
  then show ?thesis
    by (simp add: recommendedSpecs_generateStrategy)
qed

text \<open>
  Claim C4. The profile table has the keys react, vue, angular and traditional only, and an
  analysis whose framework is none of them gets a strategy named after the traditional profile.
\<close>

theorem C4_unknown_framework_gets_traditional_name:
  "map fst strategies = [React, Vue, Angular, Traditional]
   \<and> (framework a \<notin> set (map fst strategies)
        \<longrightarrow> name (generateStrategy a) = ''Traditional Web App Strategy'')"
  by (cases "framework a")
     (simp_all add: generateStrategy_def strategies_def traditional_strategy_def
        profile.defs strategy.defs)

theorem C4_unknown_framework_witness:
  "framework ((initial_analysis [])\<lparr>framework := Svelte\<rparr>) \<notin> set (map fst strategies)
   \<and> name (generateStrategy ((initial_analysis [])\<lparr>framework := Svelte\<rparr>))
       = ''Traditional Web App Strategy''"
  using C4_unknown_framework_gets_traditional_name [of "(initial_analysis [])\<lparr>framework := Svelte\<rparr>"]
  by (simp add: strategies_def)

section \<open>Properties of framework detection\<close>

lemma detect_loop_first_match:
  "\<forall>(g, js) \<in> set pre. \<forall>j \<in> set js. \<not> truthy (allDeps j) \<Longrightarrow>
   \<exists>i \<in> set inds. truthy (allDeps i) \<Longrightarrow>
   detect_loop (pre @ (f, inds) # post) allDeps fw = f"
  by (induction pre) (auto simp: list_ex_iff)

lemma detect_loop_no_match:
  "\<forall>(g, js) \<in> set tbl. \<forall>j \<in> set js. \<not> truthy (allDeps j) \<Longrightarrow> detect_loop tbl allDeps fw = fw"
  by (induction tbl) (auto simp: list_ex_iff)

lemma framework_detectFrameworkAndType:
  "framework (detectFrameworkAndType a) =
     (if detect_loop frameworkIndicators (combinedDeps a) (framework a) = NoFramework then Traditional
      else detect_loop frameworkIndicators (combinedDeps a) (framework a))"
  by (simp add: detectFrameworkAndType_def Let_def)

lemma frameworkIndicators_keys:
  "map fst frameworkIndicators = [React, Vue, Angular, Nextjs, Nuxtjs, Svelte, Traditional]"
  by (simp add: frameworkIndicators_def)

text \<open>
  Claim C3, as the code has it. The table is scanned in its declared order (react, vue, angular,
  nextjs, nuxtjs, svelte, traditional); the first row one of whose indicators has a truthy value
  (a non-empty declared version) in the combined map gives the framework, whatever the rows after
  it hold; when no row has one, a fresh analysis ends as traditional.
\<close>

theorem C3_first_row_with_truthy_indicator_wins:
  "map fst frameworkIndicators = [React, Vue, Angular, Nextjs, Nuxtjs, Svelte, Traditional]
   \<and> (\<forall>pre f inds post.
         frameworkIndicators = pre @ (f, inds) # post
         \<and> (\<forall>(g, js) \<in> set pre. \<forall>j \<in> set js. \<not> truthy (combinedDeps a j))
         \<and> (\<exists>i \<in> set inds. truthy (combinedDeps a i))
         \<longrightarrow> framework (detectFrameworkAndType a) = f)
   \<and> (framework a = NoFramework
        \<and> (\<forall>(g, js) \<in> set frameworkIndicators. \<forall>j \<in> set js. \<not> truthy (combinedDeps a j))
        \<longrightarrow> framework (detectFrameworkAndType a) = Traditional)"
proof (intro conjI allI impI)
  show "map fst frameworkIndicators = [React, Vue, Angular, Nextjs, Nuxtjs, Svelte, Traditional]"
    by (rule frameworkIndicators_keys)
next
  fix pre f inds post
  assume h: "frameworkIndicators = pre @ (f, inds) # post
         \<and> (\<forall>(g, js) \<in> set pre. \<forall>j \<in> set js. \<not> truthy (combinedDeps a j))
         \<and> (\<exists>i \<in> set inds. truthy (combinedDeps a i))"
  then have loop: "detect_loop frameworkIndicators (combinedDeps a) (framework a) = f"
    using detect_loop_first_match [of pre "combinedDeps a" inds f post "framework a"] by simp
  from h have eq: "frameworkIndicators = pre @ (f, inds) # post"
    by blast
  have "f \<in> set (map fst frameworkIndicators)"
    by (subst eq) simp
  then have "f \<noteq> NoFramework"
    by (auto simp: frameworkIndicators_keys)
  with loop show "framework (detectFrameworkAndType a) = f"
    by (simp add: framework_detectFrameworkAndType)
next
  assume "framework a = NoFramework
        \<and> (\<forall>(g, js) \<in> set frameworkIndicators. \<forall>j \<in> set js. \<not> truthy (combinedDeps a j))"
  then show "framework (detectFrameworkAndType a) = Traditional"
    using detect_loop_no_match [of frameworkIndicators "combinedDeps a" "framework a"]
    by (simp add: framework_detectFrameworkAndType)
qed

theorem C3_first_row_witness:
  "framework (detectFrameworkAndType vue_nuxt_project) = Vue
   \<and> framework (detectFrameworkAndType (initial_analysis [])) = Traditional"
proof -
  have tbl: "frameworkIndicators =
      [(React, [''react'', ''react-dom'', ''next'', ''gatsby''])]
      @ (Vue, [''vue'', ''nuxt'', ''vuex'', ''vue-router''])
      # [(Angular, [''@angular/core'', ''@angular/common'', ''rxjs'']),
         (Nextjs, [''next'', ''react'']), (Nuxtjs, [''nuxt'', ''vue'']),
         (Svelte, [''svelte'', ''svelte-kit'']),
         (Traditional, [''jquery'', ''bootstrap'', ''popper.js''])]"
    by (simp add: frameworkIndicators_def)
  have pre: "\<forall>(g, js) \<in> set [(React, [''react'', ''react-dom'', ''next'', ''gatsby''])].
               \<forall>j \<in> set js. \<not> truthy (combinedDeps vue_nuxt_project j)"
    by (simp add: combinedDeps_def vue_nuxt_project_def initial_analysis_def truthy_def)
  have hit: "\<exists>i \<in> set [''vue'', ''nuxt'', ''vuex'', ''vue-router''].
               truthy (combinedDeps vue_nuxt_project i)"
    by (simp add: combinedDeps_def vue_nuxt_project_def initial_analysis_def truthy_def)
  have none: "framework (initial_analysis []) = NoFramework
        \<and> (\<forall>(g, js) \<in> set frameworkIndicators.
              \<forall>j \<in> set js. \<not> truthy (combinedDeps (initial_analysis []) j))"
    by (simp add: combinedDeps_def initial_analysis_def truthy_def frameworkIndicators_def)
  from C3_first_row_with_truthy_indicator_wins [of vue_nuxt_project] tbl pre hit
  have 1: "framework (detectFrameworkAndType vue_nuxt_project) = Vue"
    by blast
  from C3_first_row_with_truthy_indicator_wins [of "initial_analysis []"] none
  have 2: "framework (detectFrameworkAndType (initial_analysis [])) = Traditional"
    by blast
  from 1 2 show ?thesis
    by simp
qed

text \<open>
  Claim C3 as stated fails: with \<open>react\<close> declared at the empty version (a valid range of
  a manifest, standing for any version), react's indicator list intersects the keys of the
  combined map, so the stated rule gives react, while the code reads the empty string as falsy,
  matches no row and ends as traditional.
\<close>

theorem C3_empty_version_counterexample:
  "spec_detectFramework (combinedDeps empty_version_project) = React
   \<and> framework (detectFrameworkAndType empty_version_project) = Traditional"
  by (simp add: spec_detectFramework_def combinedDeps_def empty_version_project_def
      initial_analysis_def frameworkIndicators_def detectFrameworkAndType_def Let_def truthy_def)

text \<open>
  Claim C9. Detection never changes the framework to nextjs or nuxtjs: the indicators of nextjs
  are among those of react, the indicators of nuxtjs are among those of vue, and react and vue
  stand earlier in the table. So an analysis that does not start as one of the two (a fresh one
  starts as \<open>'none'\<close>) does not end as one of them.
\<close>

theorem C9_nextjs_nuxtjs_unreachable:
  "(framework a \<notin> {Nextjs, Nuxtjs} \<longrightarrow> framework (detectFrameworkAndType a) \<notin> {Nextjs, Nuxtjs})
   \<and> (\<exists>r n. map_of frameworkIndicators React = Some r
            \<and> map_of frameworkIndicators Nextjs = Some n \<and> set n \<subseteq> set r)
   \<and> (\<exists>v n. map_of frameworkIndicators Vue = Some v
            \<and> map_of frameworkIndicators Nuxtjs = Some n \<and> set n \<subseteq> set v)
   \<and> map fst frameworkIndicators = [React, Vue, Angular, Nextjs, Nuxtjs, Svelte, Traditional]"
  by (simp add: framework_detectFrameworkAndType frameworkIndicators_def)

theorem C9_nextjs_nuxtjs_witness:
  "framework ((initial_analysis [])\<lparr>dependencies := [''next'' \<mapsto> ''^14.0.0'']\<rparr>) \<notin> {Nextjs, Nuxtjs}
   \<and> framework (detectFrameworkAndType
         ((initial_analysis [])\<lparr>dependencies := [''next'' \<mapsto> ''^14.0.0'']\<rparr>)) \<notin> {Nextjs, Nuxtjs}"
  using C9_nextjs_nuxtjs_unreachable
    [of "(initial_analysis [])\<lparr>dependencies := [''next'' \<mapsto> ''^14.0.0'']\<rparr>"]
  by (simp add: initial_analysis_def)

section \<open>The react scenario\<close>

lemma detectFrameworkAndType_keeps:
  "projectStructure (detectFrameworkAndType a) = projectStructure a"
  "entryPoints (detectFrameworkAndType a) = entryPoints a"
  "dependencies (detectFrameworkAndType a) = dependencies a"
  by (simp_all add: detectFrameworkAndType_def Let_def)

lemma startsWith_set: "startsWith s t \<Longrightarrow> set t \<subseteq> set s"
  by (induction s t rule: startsWith.induct) auto

lemma str_includes_set: "str_includes s t \<Longrightarrow> set t \<subseteq> set s"
proof (induction s)
  case Nil
  then show ?case
    by simp
next
  case (Cons a s)
  from Cons.prems have "startsWith (a # s) t \<or> str_includes s t"
    by simp
  then show ?case
  proof
    assume "startsWith (a # s) t"
    then show ?thesis
      by (rule startsWith_set)
  next
    assume "str_includes s t"
    with Cons.IH show ?thesis
      by auto
  qed
qed

lemma react_project_no_signal:
  assumes "c \<in> set w" and "c \<notin> set ''x.js''"
  shows "\<not> path_signal (react_project n) w"
proof
  assume "path_signal (react_project n) w"
  then obtain i where "str_includes (replicate (Suc i) CHR ''x'' @ ''.js'') w"
    by (auto simp: path_signal_def list_ex_iff react_project_def plain_file_def)
  from str_includes_set [OF this] assms show False
    by auto
qed

lemma react_project_fields:
  "dependencies (react_project n) = [''react'' \<mapsto> ''^18.0.0'']"
  "devDependencies (react_project n) = Map.empty"
  "length (entryPoints (react_project n)) = 1"
  "length (projectStructure (react_project n)) = n"
  by (simp_all add: react_project_def initial_analysis_def)

lemma focusAreas_generateStrategy:
  "focusAreas (generateStrategy a) = determineFocusAreas a"
  by (simp add: generateStrategy_def Let_def profile.defs strategy.defs)

text \<open>
  Claim C8 as stated fails: a react project with one entry point, no form, auth or api path and
  25 structure entries is recommended 4 specs, since 25 / 50 + 0.5 reaches the next integer.
\<close>

theorem C8_twentyfive_entries_counterexample:
  "dependencies (react_project 25) = [''react'' \<mapsto> ''^18.0.0'']
   \<and> \<not> path_signal (react_project 25) ''form''
   \<and> \<not> path_signal (react_project 25) ''auth''
   \<and> \<not> path_signal (react_project 25) ''api''
   \<and> length (entryPoints (react_project 25)) = 1
   \<and> recommendedSpecs (generateStrategy (detectFrameworkAndType (react_project 25))) = 4"
  by (simp add: recommendedSpecs_generateStrategy calculateRecommendedSpecs_closed
      detectFrameworkAndType_keeps react_project_fields
      react_project_no_signal [of "CHR ''f''"] react_project_no_signal [of "CHR ''a''"])

text \<open>
  Claim C8, amended. With \<open>react\<close> declared at \<open>^18.0.0\<close> in the dependencies and not
  overridden by an empty version in the devDependencies, no structure path containing form, auth
  or api, exactly one entry point and fewer than 25 structure entries, detection gives react,
  the focus areas are the default pair and 3 specs are recommended.
\<close>

theorem C8_react_scenario_under_25_entries:
  assumes deps: "dependencies a = [''react'' \<mapsto> ''^18.0.0'']"
    and dev: "devDependencies a ''react'' \<noteq> Some []"
    and form: "\<not> path_signal a ''form''"
    and auth: "\<not> path_signal a ''auth''"
    and api: "\<not> path_signal a ''api''"
    and one: "length (entryPoints a) = 1"
    and small: "length (projectStructure a) < 25"
  shows "framework (detectFrameworkAndType a) = React
   \<and> focusAreas (generateStrategy (detectFrameworkAndType a)) = [''smoke-testing'', ''critical-flows'']
   \<and> recommendedSpecs (generateStrategy (detectFrameworkAndType a)) = 3"
proof -
  have "truthy (combinedDeps a ''react'')"
    using deps dev by (cases "devDependencies a ''react''") (simp_all add: combinedDeps_def truthy_def map_add_def)
  then have fw: "framework (detectFrameworkAndType a) = React"
    by (simp add: framework_detectFrameworkAndType frameworkIndicators_def)
  have sig: "path_signal (detectFrameworkAndType a) w = path_signal a w" for w
    by (simp add: path_signal_def detectFrameworkAndType_keeps)
  have fa: "determineFocusAreas (detectFrameworkAndType a) = [''smoke-testing'', ''critical-flows'']"
    using form auth api one
    by (simp add: determineFocusAreas_def sig detectFrameworkAndType_keeps)
  have rs: "calculateRecommendedSpecs (detectFrameworkAndType a) = 3"
    using one small
    by (simp add: calculateRecommendedSpecs_closed detectFrameworkAndType_keeps)
  from fw fa rs show ?thesis
    by (simp add: focusAreas_generateStrategy recommendedSpecs_generateStrategy)
qed

theorem C8_react_scenario_witness:
  "framework (detectFrameworkAndType (react_project 3)) = React
   \<and> focusAreas (generateStrategy (detectFrameworkAndType (react_project 3)))
       = [''smoke-testing'', ''critical-flows'']
   \<and> recommendedSpecs (generateStrategy (detectFrameworkAndType (react_project 3))) = 3"
proof (rule C8_react_scenario_under_25_entries)
  show "dependencies (react_project 3) = [''react'' \<mapsto> ''^18.0.0'']"
    by (simp add: react_project_fields)
  show "devDependencies (react_project 3) ''react'' \<noteq> Some []"
    by (simp add: react_project_fields)
  show "\<not> path_signal (react_project 3) ''form''"
    by (rule react_project_no_signal [of "CHR ''f''"]) simp_all
  show "\<not> path_signal (react_project 3) ''auth''"
    by (rule react_project_no_signal [of "CHR ''a''"]) simp_all
  show "\<not> path_signal (react_project 3) ''api''"
    by (rule react_project_no_signal [of "CHR ''a''"]) simp_all
  show "length (entryPoints (react_project 3)) = 1"
    by (simp add: react_project_fields)
  show "length (projectStructure (react_project 3)) < 25"
    by (simp add: react_project_fields)
qed

section \<open>Properties of the Test Spec Generator\<close>

lemma decimal_value_append:
  "decimal_value acc (s @ t) = decimal_value (decimal_value acc s) t"
  by (induction s arbitrary: acc) simp_all

lemma digit_value_digit_char: "d < 10 \<Longrightarrow> digit_value (digit_char d) = d"
proof -
  assume "d < 10"
  then have "d \<in> {0, 1, 2, 3, 4, 5, 6, 7, 8, 9}"
    by auto
  then show ?thesis
    by (auto simp: digit_char_def)
qed

lemma decimal_value_string_of_nat: "decimal_value 0 (string_of_nat n) = n"
proof (induction n rule: string_of_nat.induct)
  case (1 n)
  show ?case
  proof (cases "n < 10")
    case True
    then show ?thesis
      by (subst string_of_nat.simps) (simp add: digit_value_digit_char del: digit_value.simps)
  next
    case False
    with 1 have "decimal_value 0 (string_of_nat (n div 10)) = n div 10"
      by simp
    with False show ?thesis
      by (subst string_of_nat.simps)
         (simp add: decimal_value_append digit_value_digit_char del: digit_value.simps)
  qed
qed

lemma string_of_nat_inj: "string_of_nat m = string_of_nat n \<Longrightarrow> m = n"
  by (metis decimal_value_string_of_nat)

lemma testPatterns_generateStrategy:
  "testPatterns (generateStrategy a) =
     selectTestPatterns a (patterns (case map_of strategies (framework a) of
                                       Some p \<Rightarrow> p | None \<Rightarrow> traditional_strategy))"
  by (simp add: generateStrategy_def Let_def profile.defs strategy.defs)


lemma make_spec_shape:
  "make_spec tpl printed clock a s i = Returned spec \<Longrightarrow>
     spec_name spec = ''generated-spec-'' @ string_of_nat (i + 1) @ ''.cy.js''
     \<and> spec_type spec = selectSpecType s i"
  by (auto simp: make_spec_def Let_def split: outcome.splits)

lemma generate_loop_extends:
  "generate_loop tpl printed clock a s i specs = Returned result \<Longrightarrow> \<exists>new. result = specs @ new"
proof (induction tpl printed clock a s i specs rule: generate_loop.induct)
  case (1 tpl printed clock a s i specs)
  show ?case
  proof (cases "int i < recommendedSpecs s")
    case False
    with "1.prems" show ?thesis
      by (simp add: generate_loop.simps [of tpl printed clock a s i specs])
  next
    case True
    show ?thesis
    proof (cases "make_spec tpl printed clock a s i")
      case (Raised message)
      with True "1.prems" show ?thesis
        by (simp add: generate_loop.simps [of tpl printed clock a s i specs])
    next
      case (Returned spec)
      with True "1.prems"
      have "generate_loop tpl printed clock a s (i + 1) (specs @ [spec]) = Returned result"
        by (simp add: generate_loop.simps [of tpl printed clock a s i specs])
      from "1.IH" [OF True Returned this] show ?thesis
        by auto
    qed
  qed
qed

lemma generate_loop_map:
  assumes "\<forall>j. make_spec tpl printed clock a s j = Returned (f j)"
  shows "generate_loop tpl printed clock a s i specs
           = Returned (specs @ map f [i ..< nat (recommendedSpecs s)])"
  using assms
proof (induction tpl printed clock a s i specs rule: generate_loop.induct)
  case (1 tpl printed clock a s i specs)
  have ms: "make_spec tpl printed clock a s i = Returned (f i)"
    using "1.prems" by simp
  show ?case
  proof (cases "int i < recommendedSpecs s")
    case True
    then have "i < nat (recommendedSpecs s)"
      by simp
    then have upt: "[i ..< nat (recommendedSpecs s)] = i # [Suc i ..< nat (recommendedSpecs s)]"
      by (simp add: upt_conv_Cons)
    from "1.IH" [OF True ms "1.prems"] True ms upt show ?thesis
      by (simp add: generate_loop.simps [of tpl printed clock a s i specs])
  next
    case False
    then show ?thesis
      by (simp add: generate_loop.simps [of tpl printed clock a s i specs])
  qed
qed

lemma getBaseTemplate_text:
  "print_type specType \<notin> set inherited_members \<Longrightarrow> \<exists>t. getBaseTemplate tpl specType = Text t"
  by (simp add: getBaseTemplate_def split: option.splits)

lemma selectSpecType_not_inherited:
  assumes "\<forall>p \<in> set (testPatterns s). p \<notin> set inherited_members"
  shows "print_type (selectSpecType s i) \<notin> set inherited_members"
proof (cases "testPatterns s = []")
  case True
  then show ?thesis
    by (simp add: selectSpecType_def print_type_def inherited_members_def)
next
  case False
  then have "testPatterns s ! (i mod length (testPatterns s)) \<in> set (testPatterns s)"
    by simp
  with assms False show ?thesis
    by (simp add: selectSpecType_def print_type_def Let_def)
qed

lemma make_spec_returns:
  assumes "framework a = React \<or> framework a = Vue \<or> framework a = Angular
             \<longrightarrow> (\<forall>p \<in> set (testPatterns s). p \<notin> set inherited_members)"
  shows "\<exists>spec. make_spec tpl printed clock a s i = Returned spec"
proof (cases "framework a = React \<or> framework a = Vue \<or> framework a = Angular")
  case True
  with assms have "print_type (selectSpecType s i) \<notin> set inherited_members"
    by (simp add: selectSpecType_not_inherited)
  from getBaseTemplate_text [OF this] obtain t
    where "getBaseTemplate tpl (selectSpecType s i) = Text t"
    by blast
  with True show ?thesis
    by (simp add: make_spec_def generateSpecContent_def customizeTemplate_def Let_def)
next
  case False
  then show ?thesis
    by (cases "getBaseTemplate tpl (selectSpecType s i)")
       (simp_all add: make_spec_def generateSpecContent_def customizeTemplate_def Let_def)
qed

lemma generateStrategy_patterns_own:
  "p \<in> set (testPatterns (generateStrategy a)) \<Longrightarrow> p \<notin> set inherited_members"
proof -
  assume mem: "p \<in> set (testPatterns (generateStrategy a))"
  let ?base = "patterns (case map_of strategies (framework a) of
                           Some q \<Rightarrow> q | None \<Rightarrow> traditional_strategy)"
  from mem have "p \<in> set ?base \<union> {''api-testing'', ''multi-page-testing'', ''form-validation''}"
    by (auto simp: testPatterns_generateStrategy selectTestPatterns_def Let_def split: if_splits)
  moreover have "set ?base \<subseteq> set (patterns react_strategy) \<union> set (patterns vue_strategy)
      \<union> set (patterns angular_strategy) \<union> set (patterns traditional_strategy)"
    by (cases "framework a") (auto simp: strategies_def)
  ultimately have "p \<in> set (patterns react_strategy) \<union> set (patterns vue_strategy)
      \<union> set (patterns angular_strategy) \<union> set (patterns traditional_strategy)
      \<union> {''api-testing'', ''multi-page-testing'', ''form-validation''}"
    by blast
  then show ?thesis
    by (auto simp: react_strategy_def vue_strategy_def angular_strategy_def
        traditional_strategy_def inherited_members_def)
qed




section \<open>Properties of the structural scan\<close>

lemma split_slash_not_Nil [simp]: "split_slash s \<noteq> []"
  by (induction s) (auto split: list.splits)

lemma split_slash_single: "CHR ''/'' \<notin> set a \<Longrightarrow> split_slash a = [a]"
  by (induction a) auto

lemma split_slash_append:
  "CHR ''/'' \<notin> set b \<Longrightarrow> split_slash (a @ CHR ''/'' # b) = split_slash a @ [b]"
proof (induction a)
  case Nil
  then show ?case by (simp add: split_slash_single)
next
  case (Cons c a)
  then show ?case
    by (cases "split_slash a") auto
qed

lemma segments_path_join:
  "valid_name item \<Longrightarrow> segments (path_join cur item) = segments cur @ [item]"
  by (auto simp: valid_name_def segments_def path_join_def split_slash_single split_slash_append)

lemma scan_position_step:
  assumes pos: "scan_position cur d" and v: "valid_name item" and ns: "\<not> skipped item"
    and rec: "d < 2 \<or> isImportantDirectory item"
  shows "scan_position (path_join cur item) (d + 1)"
proof -
  have len: "length (segments cur) = d" using pos by (simp add: scan_position_def)
  have "3 \<le> d + 1 \<Longrightarrow> isImportantDirectory ((segments cur @ [item]) ! 2)"
  proof -
    assume "3 \<le> d + 1"
    show ?thesis
    proof (cases "d = 2")
      case True
      with rec len show ?thesis by (simp add: nth_append)
    next
      case False
      with \<open>3 \<le> d + 1\<close> have "3 \<le> d" by simp
      with pos len show ?thesis by (simp add: scan_position_def nth_append)
    qed
  qed
  with pos v ns show ?thesis
    by (simp add: scan_position_def segments_path_join)
qed

lemma dir_entry_ok:
  assumes pos: "scan_position cur d" and v: "valid_name item" and ns: "\<not> skipped item"
    and d: "d \<le> 3"
  shows "scan_ok \<lparr> item_type = Directory, item_path = path_join cur item, item_depth = Some d,
            item_extension = None, item_size = None, important = isImportantDirectory item \<rparr>"
  using assms
  by (auto simp: scan_ok_def Let_def segments_path_join scan_position_def nth_append)

lemma file_entry_ok:
  assumes pos: "scan_position cur d" and v: "valid_name item" and ns: "\<not> skipped item"
    and d: "d \<le> 2"
  shows "scan_ok \<lparr> item_type = File, item_path = path_join cur item, item_depth = None,
            item_extension = x, item_size = y, important = b \<rparr>"
  using assms
  by (auto simp: scan_ok_def Let_def segments_path_join scan_position_def)

lemma scan_invariant:
  "well_formed_names io fs \<Longrightarrow> scan_position currentPath depth \<Longrightarrow> \<forall>e \<in> set entries. scan_ok e
     \<Longrightarrow> \<forall>e \<in> set (analyzeProjectStructure io fs repoPath currentPath depth entries). scan_ok e"
  "well_formed_names io fs \<Longrightarrow> scan_position currentPath depth \<Longrightarrow> depth \<le> 3
     \<Longrightarrow> \<forall>n \<in> set items. valid_name n \<Longrightarrow> \<forall>e \<in> set entries. scan_ok e
     \<Longrightarrow> \<forall>e \<in> set (scan_items io fs repoPath currentPath depth items entries). scan_ok e"
proof (induction io fs repoPath currentPath depth entries
         and io fs repoPath currentPath depth items entries
       rule: analyzeProjectStructure_scan_items.induct)
  case (1 io fs repoPath currentPath depth entries)
  note unfold = analyzeProjectStructure.simps [of io fs repoPath currentPath depth entries]
  show ?case
  proof (cases "depth > 3")
    case True
    with "1.prems"(3) show ?thesis
      by (simp add: unfold)
  next
    case False
    then have d: "depth \<le> 3"
      by simp
    show ?thesis
    proof (cases "readdir io (path_join repoPath currentPath) fs")
      case None
      with False "1.prems"(3) show ?thesis
        by (simp add: unfold)
    next
      case (Some items)
      with "1.prems"(1) have names: "\<forall>n \<in> set items. valid_name n"
        by (auto simp: well_formed_names_def)
      have "\<forall>e \<in> set (scan_items io fs repoPath currentPath depth items entries). scan_ok e"
        using "1.IH" [OF False Some "1.prems"(1,2) d names "1.prems"(3)] .
      with False Some show ?thesis
        by (simp add: unfold)
    qed
  qed
next
  case (2 io fs repoPath currentPath depth entries)
  then show ?case
    by simp
next
  case (3 io fs repoPath currentPath depth item rest entries)
  let ?itemPath = "path_join currentPath item"
  note unfold3 = scan_items.simps(2) [of io fs repoPath currentPath depth item rest entries]
  have rest: "\<forall>n \<in> set rest. valid_name n" and v: "valid_name item"
    using "3.prems" by simp_all
  show ?case
  proof (cases "skipped item")
    case True
    then have sk: "startsWith item ''.'' \<or> item = ''node_modules'' \<or> item = ''.git''"
      by (simp add: skipped_def)
    have "\<forall>e \<in> set (scan_items io fs repoPath currentPath depth rest entries). scan_ok e"
      using "3.IH"(1) [OF sk "3.prems"(1,2,3) rest "3.prems"(5)] .
    with sk show ?thesis
      by (simp add: unfold3)
  next
    case ns: False
    then have ns': "\<not> (startsWith item ''.'' \<or> item = ''node_modules'' \<or> item = ''.git'')"
      by (simp add: skipped_def)
    show ?thesis
    proof (cases "stat io (path_join repoPath ?itemPath) fs")
      case None
      have "\<forall>e \<in> set (scan_items io fs repoPath currentPath depth rest entries). scan_ok e"
        using "3.IH"(2) [OF ns' refl refl None "3.prems"(1,2,3) rest "3.prems"(5)] .
      with ns' None show ?thesis
        by (simp add: unfold3)
    next
      case (Some st)
      show ?thesis
      proof (cases "isDirectory st")
        case dir: True
        let ?s1 = "entries @ [\<lparr> item_type = Directory, item_path = ?itemPath,
                      item_depth = Some depth, item_extension = None, item_size = None,
                      important = isImportantDirectory item \<rparr>]"
        have s1: "\<forall>e \<in> set ?s1. scan_ok e"
          using "3.prems" v ns dir_entry_ok [of currentPath depth item] by auto
        show ?thesis
        proof (cases "depth < 2 \<or> isImportantDirectory item")
          case True
          have pos': "scan_position ?itemPath (depth + 1)"
            using scan_position_step [OF _ v ns True] "3.prems" by simp
          have inner: "\<forall>e \<in> set (analyzeProjectStructure io fs repoPath ?itemPath (depth + 1) ?s1).
                         scan_ok e"
            using "3.IH"(3) [OF ns' refl refl Some dir refl True "3.prems"(1) pos' s1] .
          have "\<forall>e \<in> set (scan_items io fs repoPath currentPath depth rest
                  (analyzeProjectStructure io fs repoPath ?itemPath (depth + 1) ?s1)). scan_ok e"
            using "3.IH"(4) [OF ns' refl refl Some dir refl True "3.prems"(1,2,3) rest inner] .
          with ns' Some dir True show ?thesis
            by (simp add: unfold3 Let_def)
        next
          case False
          have "\<forall>e \<in> set (scan_items io fs repoPath currentPath depth rest ?s1). scan_ok e"
            using "3.IH"(5) [OF ns' refl refl Some dir refl False "3.prems"(1,2,3) rest s1] .
          with ns' Some dir False show ?thesis
            by (simp add: unfold3 Let_def)
        qed
      next
        case nodir: False
        show ?thesis
        proof (cases "isFile st \<and> depth \<le> 2")
          case True
          let ?s1 = "entries @ [\<lparr> item_type = File, item_path = ?itemPath, item_depth = None,
                         item_extension = Some (extname item), item_size = Some (stat_size st),
                         important = isImportantFile item \<rparr>]"
          have s1: "\<forall>e \<in> set ?s1. scan_ok e"
            using "3.prems" v ns True file_entry_ok [of currentPath depth item] by auto
          have "\<forall>e \<in> set (scan_items io fs repoPath currentPath depth rest ?s1). scan_ok e"
            using "3.IH"(6) [OF ns' refl refl Some nodir True "3.prems"(1,2,3) rest s1] .
          with ns' Some nodir True show ?thesis
            by (simp add: unfold3 Let_def)
        next
          case False
          have "\<forall>e \<in> set (scan_items io fs repoPath currentPath depth rest entries). scan_ok e"
            using "3.IH"(7) [OF ns' refl refl Some nodir False "3.prems"(1,2,3) rest "3.prems"(5)] .
          with ns' Some nodir False show ?thesis
            by (auto simp add: unfold3 Let_def)
        qed
      qed
    qed
  qed
qed

lemma flagged_ancestor_mono:
  "set xs \<subseteq> set ys \<Longrightarrow> flagged_ancestor xs e \<Longrightarrow> flagged_ancestor ys e"
  by (auto simp: flagged_ancestor_def list_ex_iff)

lemma ancestor_listed_mono:
  "set xs \<subseteq> set ys \<Longrightarrow> ancestor_listed cur d xs \<Longrightarrow> ancestor_listed cur d ys"
  by (auto simp: ancestor_listed_def list_ex_iff)

lemma new_entry_flagged:
  assumes pos: "scan_position cur d" and v: "valid_name item" and anc: "ancestor_listed cur d entries"
    and d: "d \<le> 3" and p: "item_path e = path_join cur item"
  shows "flagged_ancestor (entries @ [e]) e"
proof -
  have segs: "segments (item_path e) = segments cur @ [item]"
    using p v by (simp add: segments_path_join)
  have len: "length (segments cur) = d"
    using pos by (simp add: scan_position_def)
  show ?thesis
    using anc len by (auto simp: flagged_ancestor_def ancestor_listed_def segs list_ex_iff)
qed

lemma push_keeps_flagged:
  assumes old: "\<forall>x \<in> set entries. flagged_ancestor entries x"
    and new: "flagged_ancestor (entries @ [e]) e"
  shows "\<forall>x \<in> set (entries @ [e]). flagged_ancestor (entries @ [e]) x"
proof
  fix x assume "x \<in> set (entries @ [e])"
  then consider "x \<in> set entries" | "x = e"
    by auto
  then show "flagged_ancestor (entries @ [e]) x"
  proof cases
    case 1
    with old have "flagged_ancestor entries x"
      by blast
    then show ?thesis
      by (rule flagged_ancestor_mono [rotated]) auto
  next
    case 2
    with new show ?thesis
      by simp
  qed
qed

lemma child_ancestor_listed:
  assumes pos: "scan_position cur d" and v: "valid_name item"
    and rec: "d < 2 \<or> isImportantDirectory item"
  shows "ancestor_listed (path_join cur item) (d + 1)
           (entries @ [\<lparr> item_type = Directory, item_path = path_join cur item,
               item_depth = Some d, item_extension = None, item_size = None,
               important = isImportantDirectory item \<rparr>])"
  using rec by (auto simp: ancestor_listed_def flagged_dir_at_def)

lemma scan_ancestors:
  "well_formed_names io fs \<Longrightarrow> scan_position currentPath depth
     \<Longrightarrow> ancestor_listed currentPath depth entries
     \<Longrightarrow> \<forall>e \<in> set entries. flagged_ancestor entries e
     \<Longrightarrow> set entries \<subseteq> set (analyzeProjectStructure io fs repoPath currentPath depth entries)
         \<and> (\<forall>e \<in> set (analyzeProjectStructure io fs repoPath currentPath depth entries).
               flagged_ancestor (analyzeProjectStructure io fs repoPath currentPath depth entries) e)"
  "well_formed_names io fs \<Longrightarrow> scan_position currentPath depth \<Longrightarrow> depth \<le> 3
     \<Longrightarrow> \<forall>n \<in> set items. valid_name n
     \<Longrightarrow> ancestor_listed currentPath depth entries
     \<Longrightarrow> \<forall>e \<in> set entries. flagged_ancestor entries e
     \<Longrightarrow> set entries \<subseteq> set (scan_items io fs repoPath currentPath depth items entries)
         \<and> (\<forall>e \<in> set (scan_items io fs repoPath currentPath depth items entries).
               flagged_ancestor (scan_items io fs repoPath currentPath depth items entries) e)"
proof (induction io fs repoPath currentPath depth entries
         and io fs repoPath currentPath depth items entries
       rule: analyzeProjectStructure_scan_items.induct)
  case (1 io fs repoPath currentPath depth entries)
  note unfold = analyzeProjectStructure.simps [of io fs repoPath currentPath depth entries]
  show ?case
  proof (cases "depth > 3")
    case True
    with "1.prems"(4) show ?thesis
      by (simp add: unfold)
  next
    case False
    then have d: "depth \<le> 3"
      by simp
    show ?thesis
    proof (cases "readdir io (path_join repoPath currentPath) fs")
      case None
      with False "1.prems"(4) show ?thesis
        by (simp add: unfold)
    next
      case (Some items)
      with "1.prems"(1) have names: "\<forall>n \<in> set items. valid_name n"
        by (auto simp: well_formed_names_def)
      from "1.IH" [OF False Some "1.prems"(1,2) d names "1.prems"(3,4)] False Some
      show ?thesis
        by (simp add: unfold)
    qed
  qed
next
  case (2 io fs repoPath currentPath depth entries)
  then show ?case
    by simp
next
  case (3 io fs repoPath currentPath depth item rest entries)
  let ?itemPath = "path_join currentPath item"
  note unfold3 = scan_items.simps(2) [of io fs repoPath currentPath depth item rest entries]
  note wf = "3.prems"(1) and pos = "3.prems"(2) and d = "3.prems"(3)
    and anc = "3.prems"(5) and old = "3.prems"(6)
  have rest: "\<forall>n \<in> set rest. valid_name n" and v: "valid_name item"
    using "3.prems"(4) by simp_all
  show ?case
  proof (cases "skipped item")
    case True
    then have sk: "startsWith item ''.'' \<or> item = ''node_modules'' \<or> item = ''.git''"
      by (simp add: skipped_def)
    from "3.IH"(1) [OF sk wf pos d rest anc old] sk show ?thesis
      by (simp add: unfold3)
  next
    case ns: False
    then have ns': "\<not> (startsWith item ''.'' \<or> item = ''node_modules'' \<or> item = ''.git'')"
      by (simp add: skipped_def)
    show ?thesis
    proof (cases "stat io (path_join repoPath ?itemPath) fs")
      case None
      from "3.IH"(2) [OF ns' refl refl None wf pos d rest anc old] ns' None show ?thesis
        by (simp add: unfold3)
    next
      case (Some st)
      show ?thesis
      proof (cases "isDirectory st")
        case dir: True
        let ?new = "\<lparr> item_type = Directory, item_path = ?itemPath,
                      item_depth = Some depth, item_extension = None, item_size = None,
                      important = isImportantDirectory item \<rparr>"
        let ?s1 = "entries @ [?new]"
        have "flagged_ancestor ?s1 ?new"
          by (rule new_entry_flagged [OF pos v anc d]) simp
        with old have s1: "\<forall>e \<in> set ?s1. flagged_ancestor ?s1 e"
          by (rule push_keeps_flagged)
        have anc1: "ancestor_listed currentPath depth ?s1"
          by (rule ancestor_listed_mono [OF _ anc]) auto
        show ?thesis
        proof (cases "depth < 2 \<or> isImportantDirectory item")
          case True
          let ?inner = "analyzeProjectStructure io fs repoPath ?itemPath (depth + 1) ?s1"
          have pos': "scan_position ?itemPath (depth + 1)"
            by (rule scan_position_step [OF pos v ns True])
          have anc': "ancestor_listed ?itemPath (depth + 1) ?s1"
            by (rule child_ancestor_listed [OF pos v True])
          from "3.IH"(3) [OF ns' refl refl Some dir refl True wf pos' anc' s1]
          have sub: "set ?s1 \<subseteq> set ?inner" and inner: "\<forall>e \<in> set ?inner. flagged_ancestor ?inner e"
            by blast+
          have anc2: "ancestor_listed currentPath depth ?inner"
            by (rule ancestor_listed_mono [OF sub anc1])
          from "3.IH"(4) [OF ns' refl refl Some dir refl True wf pos d rest anc2 inner]
          have "set ?inner \<subseteq> set (scan_items io fs repoPath currentPath depth rest ?inner)"
            and fin: "\<forall>e \<in> set (scan_items io fs repoPath currentPath depth rest ?inner).
                   flagged_ancestor (scan_items io fs repoPath currentPath depth rest ?inner) e"
            by blast+
          with sub have "set entries \<subseteq> set (scan_items io fs repoPath currentPath depth rest ?inner)"
            by auto
          with fin ns' Some dir True show ?thesis
            by (simp add: unfold3 Let_def)
        next
          case False
          from "3.IH"(5) [OF ns' refl refl Some dir refl False wf pos d rest anc1 s1]
          have "set ?s1 \<subseteq> set (scan_items io fs repoPath currentPath depth rest ?s1)"
            and fin: "\<forall>e \<in> set (scan_items io fs repoPath currentPath depth rest ?s1).
                   flagged_ancestor (scan_items io fs repoPath currentPath depth rest ?s1) e"
            by blast+
          then have "set entries \<subseteq> set (scan_items io fs repoPath currentPath depth rest ?s1)"
            by auto
          with fin ns' Some dir False show ?thesis
            by (simp add: unfold3 Let_def)
        qed
      next
        case nodir: False
        show ?thesis
        proof (cases "isFile st \<and> depth \<le> 2")
          case True
          let ?new = "\<lparr> item_type = File, item_path = ?itemPath, item_depth = None,
                         item_extension = Some (extname item), item_size = Some (stat_size st),
                         important = isImportantFile item \<rparr>"
          let ?s1 = "entries @ [?new]"
          have "flagged_ancestor ?s1 ?new"
            by (rule new_entry_flagged [OF pos v anc d]) simp
          with old have s1: "\<forall>e \<in> set ?s1. flagged_ancestor ?s1 e"
            by (rule push_keeps_flagged)
          have anc1: "ancestor_listed currentPath depth ?s1"
            by (rule ancestor_listed_mono [OF _ anc]) auto
          from "3.IH"(6) [OF ns' refl refl Some nodir True wf pos d rest anc1 s1]
          have "set ?s1 \<subseteq> set (scan_items io fs repoPath currentPath depth rest ?s1)"
            and fin: "\<forall>e \<in> set (scan_items io fs repoPath currentPath depth rest ?s1).
                   flagged_ancestor (scan_items io fs repoPath currentPath depth rest ?s1) e"
            by blast+
          then have "set entries \<subseteq> set (scan_items io fs repoPath currentPath depth rest ?s1)"
            by auto
          with fin ns' Some nodir True show ?thesis
            by (simp add: unfold3 Let_def)
        next
          case False
          from "3.IH"(7) [OF ns' refl refl Some nodir False wf pos d rest anc old]
            ns' Some nodir False show ?thesis
            by (auto simp add: unfold3 Let_def)
        qed
      qed
    qed
  qed
qed

lemma example_scan:
  "analyzeProjectStructure (example_io ''/repo'') fs ''/repo'' [] 0 [] =
     [\<lparr> item_type = Directory, item_path = ''a'', item_depth = Some 0, item_extension = None,
         item_size = None, important = False \<rparr>,
      \<lparr> item_type = Directory, item_path = ''a/b'', item_depth = Some 1, item_extension = None,
         item_size = None, important = False \<rparr>,
      \<lparr> item_type = Directory, item_path = ''a/b/src'', item_depth = Some 2, item_extension = None,
         item_size = None, important = True \<rparr>,
      \<lparr> item_type = Directory, item_path = ''a/b/src/utils'', item_depth = Some 3,
         item_extension = None, item_size = None, important = False \<rparr>,
      \<lparr> item_type = Directory, item_path = ''a/b/lib'', item_depth = Some 2, item_extension = None,
         item_size = None, important = False \<rparr>,
      \<lparr> item_type = File, item_path = ''README.md'', item_depth = None,
         item_extension = Some ''.md'', item_size = Some 120, important = True \<rparr>]"
  by code_simp

lemma example_io_well_formed: "well_formed_names (example_io base) fs"
  by (simp add: well_formed_names_def example_io_def example_dirs_def valid_name_def)

text \<open>
  Claim C7. The scan of \<open>deepAnalysis\<close> starts at the root with depth 0. When the names a
  directory listing returns are file names (non-empty, without separator), every entry it emits
  satisfies: no segment of its path is \<open>node_modules\<close>, \<open>.git\<close> or dot-prefixed; its depth
  (the number of segments before the last) is at most 3; a file entry has depth at most 2; a
  directory entry records its depth and is flagged important exactly when its name is on the
  list of \<open>isImportantDirectory\<close>; and an entry at depth 3 is a directory whose ancestor at
  depth 2, the directory from which the scan went past the normal limit, is an important one
  and is itself among the emitted entries, flagged important.
\<close>

theorem C7_scan_entries_respect_exclusions_and_depth:
  assumes "well_formed_names io fs"
    and "e \<in> set (analyzeProjectStructure io fs repoPath [] 0 [])"
  shows "(\<forall>seg \<in> set (segments (item_path e)).
            seg \<noteq> ''node_modules'' \<and> seg \<noteq> ''.git'' \<and> \<not> startsWith seg ''.'')
     \<and> 1 \<le> length (segments (item_path e))
     \<and> length (segments (item_path e)) - 1 \<le> 3
     \<and> (item_type e = File \<longrightarrow> length (segments (item_path e)) - 1 \<le> 2)
     \<and> (item_type e = Directory
          \<longrightarrow> item_depth e = Some (length (segments (item_path e)) - 1)
              \<and> important e = isImportantDirectory (last (segments (item_path e))))
     \<and> (2 < length (segments (item_path e)) - 1
          \<longrightarrow> item_type e = Directory \<and> isImportantDirectory (segments (item_path e) ! 2)
              \<and> (\<exists>anc \<in> set (analyzeProjectStructure io fs repoPath [] 0 []).
                    item_type anc = Directory
                    \<and> segments (item_path anc) = butlast (segments (item_path e))
                    \<and> important anc))"
proof -
  have pos: "scan_position [] 0"
    by (simp add: scan_position_def segments_def)
  have "\<forall>e \<in> set (analyzeProjectStructure io fs repoPath [] 0 []). scan_ok e"
    by (rule scan_invariant(1) [OF assms(1) pos]) simp
  with assms(2) have ok: "scan_ok e"
    by blast
  let ?segs = "segments (item_path e)"
  from ok have 1: "\<forall>seg \<in> set ?segs. \<not> skipped seg"
    and 2: "1 \<le> length ?segs" and 3: "length ?segs \<le> 4"
    and 4: "item_type e = File \<longrightarrow> length ?segs \<le> 3"
    and 5: "item_type e = Directory \<longrightarrow> item_depth e = Some (length ?segs - 1)
              \<and> important e = isImportantDirectory (last ?segs)"
    and 6: "length ?segs = 4 \<longrightarrow> item_type e = Directory \<and> isImportantDirectory (?segs ! 2)"
    unfolding scan_ok_def Let_def by blast+
  from 1 have a: "\<forall>seg \<in> set ?segs.
      seg \<noteq> ''node_modules'' \<and> seg \<noteq> ''.git'' \<and> \<not> startsWith seg ''.''"
    unfolding skipped_def by blast
  from 3 have b: "length ?segs - 1 \<le> 3"
    by arith
  from 4 have c: "item_type e = File \<longrightarrow> length ?segs - 1 \<le> 2"
    by arith
  have "ancestor_listed [] 0 []"
    by (simp add: ancestor_listed_def)
  from scan_ancestors(1) [OF assms(1) pos this, of repoPath] assms(2)
  have "flagged_ancestor (analyzeProjectStructure io fs repoPath [] 0 []) e"
    by simp
  then have 7: "length ?segs = 4
      \<longrightarrow> (\<exists>anc \<in> set (analyzeProjectStructure io fs repoPath [] 0 []).
            item_type anc = Directory \<and> segments (item_path anc) = butlast ?segs
            \<and> important anc)"
    by (simp add: flagged_ancestor_def flagged_dir_at_def list_ex_iff)
  from 3 6 7 have d: "2 < length ?segs - 1
      \<longrightarrow> item_type e = Directory \<and> isImportantDirectory (?segs ! 2)
          \<and> (\<exists>anc \<in> set (analyzeProjectStructure io fs repoPath [] 0 []).
                item_type anc = Directory \<and> segments (item_path anc) = butlast ?segs
                \<and> important anc)"
  proof (cases "length ?segs = 4")
    case True
    with 6 7 show ?thesis
      by simp
  next
    case False
    with 3 have "\<not> 2 < length ?segs - 1"
      by arith
    then show ?thesis
      by simp
  qed
  from a 2 b c 5 d show ?thesis
    by blast
qed

theorem C7_scan_entries_witness:
  "\<lparr> item_type = Directory, item_path = ''a/b/src/utils'', item_depth = Some 3,
      item_extension = None, item_size = None, important = False \<rparr>
     \<in> set (analyzeProjectStructure (example_io ''/repo'') [] ''/repo'' [] 0 [])
   \<and> segments ''a/b/src/utils'' = [''a'', ''b'', ''src'', ''utils'']
   \<and> isImportantDirectory ''src''"
proof -
  let ?e = "\<lparr> item_type = Directory, item_path = ''a/b/src/utils'', item_depth = Some 3,
      item_extension = None, item_size = None, important = False \<rparr>"
  have mem: "?e \<in> set (analyzeProjectStructure (example_io ''/repo'') [] ''/repo'' [] 0 [])"
    by (simp add: example_scan)
  have segs: "segments ''a/b/src/utils'' = [''a'', ''b'', ''src'', ''utils'']"
    by (simp add: segments_def)
  from C7_scan_entries_respect_exclusions_and_depth [OF example_io_well_formed mem]
  have "isImportantDirectory (segments (item_path ?e) ! 2)"
    by (simp add: segs)
  with mem segs show ?thesis
    by simp
qed

section \<open>Properties of the deep analysis\<close>

lemma run_steps_throw_at:
  "k < length steps \<Longrightarrow> run_steps (take k steps) a = (Normal, mid)
     \<Longrightarrow> (steps ! k) mid = (Throw message, r) \<Longrightarrow> run_steps steps a = (Throw message, r)"
proof (induction steps arbitrary: k a)
  case Nil
  then show ?case by simp
next
  case (Cons s steps)
  show ?case
  proof (cases k)
    case 0
    with Cons.prems show ?thesis by simp
  next
    case (Suc k')
    with Cons.prems obtain a' where sa: "s a = (Normal, a')"
      and rest: "run_steps (take k' steps) a' = (Normal, mid)"
      by (auto split: prod.splits completion.splits)
    from Cons.IH [OF _ rest] Cons.prems Suc have "run_steps steps a' = (Throw message, r)"
      by simp
    with sa show ?thesis by simp
  qed
qed

lemma run_steps_frame:
  "run_steps steps a = (c, r) \<Longrightarrow> \<forall>s \<in> set steps. \<forall>x. f (snd (s x)) = f x \<Longrightarrow> f r = f a"
proof (induction steps arbitrary: a)
  case Nil
  then show ?case by simp
next
  case (Cons s steps)
  obtain c' a' where sa: "s a = (c', a')"
    by (cases "s a")
  from Cons.prems(2) have fa: "f a' = f a"
    using sa by (metis list.set_intros(1) snd_conv)
  show ?case
  proof (cases c')
    case Normal
    with sa Cons.prems have "run_steps steps a' = (c, r)" by simp
    from Cons.IH [OF this] Cons.prems(2) have "f r = f a'" by simp
    with fa show ?thesis by simp
  next
    case (Throw m)
    with sa Cons.prems have "r = a'" by simp
    with fa show ?thesis by simp
  qed
qed

lemma deepAnalysis_returns:
  "deepAnalysis io ext fs repoPath now
     = Returned (snd (run_steps (deep_steps io ext fs repoPath) (initial_analysis now)))"
  by (simp add: deepAnalysis_def Let_def split: prod.splits completion.splits)

text \<open>
  Claim C6. \<open>deepAnalysis\<close> always returns a record and never raises. When the sub-steps
  before the \<open>k\<close>-th end normally and the \<open>k\<close>-th throws, the record returned is the one
  accumulated up to the throw; every field that the sub-steps run so far do not write still has
  the value it has in the initial record, its empty or false default.
\<close>

theorem C6_deepAnalysis_returns_partial_record:
  "(\<exists>r. deepAnalysis io ext fs repoPath now = Returned r)
   \<and> (\<forall>k mid message r.
        k < length (deep_steps io ext fs repoPath)
        \<and> run_steps (take k (deep_steps io ext fs repoPath)) (initial_analysis now) = (Normal, mid)
        \<and> (deep_steps io ext fs repoPath ! k) mid = (Throw message, r)
        \<longrightarrow> deepAnalysis io ext fs repoPath now = Returned r
           \<and> ((\<forall>j \<le> k. \<forall>x. field (snd ((deep_steps io ext fs repoPath ! j) x)) = field x)
                \<longrightarrow> field r = field (initial_analysis now)))"
proof (intro conjI allI impI)
  show "\<exists>r. deepAnalysis io ext fs repoPath now = Returned r"
    by (simp add: deepAnalysis_returns)
next
  fix k mid message r
  assume h: "k < length (deep_steps io ext fs repoPath)
        \<and> run_steps (take k (deep_steps io ext fs repoPath)) (initial_analysis now) = (Normal, mid)
        \<and> (deep_steps io ext fs repoPath ! k) mid = (Throw message, r)"
  then have "run_steps (deep_steps io ext fs repoPath) (initial_analysis now) = (Throw message, r)"
    using run_steps_throw_at by blast
  then show "deepAnalysis io ext fs repoPath now = Returned r"
    by (simp add: deepAnalysis_returns)
next
  fix k mid message r
  let ?steps = "deep_steps io ext fs repoPath"
  assume h: "k < length ?steps
        \<and> run_steps (take k ?steps) (initial_analysis now) = (Normal, mid)
        \<and> (?steps ! k) mid = (Throw message, r)"
  assume frame: "\<forall>j \<le> k. \<forall>x. field (snd ((?steps ! j) x)) = field x"
  have "\<forall>s \<in> set (take k ?steps). \<forall>x. field (snd (s x)) = field x"
  proof
    fix s assume "s \<in> set (take k ?steps)"
    then obtain j where "j < k" "j < length ?steps" "s = ?steps ! j"
      by (auto simp: in_set_conv_nth)
    with frame show "\<forall>x. field (snd (s x)) = field x"
      by simp
  qed
  with h run_steps_frame [of "take k ?steps" "initial_analysis now" Normal mid field]
  have "field mid = field (initial_analysis now)"
    by blast
  moreover from frame h have "field r = field mid"
    by (metis order_refl snd_conv)
  ultimately show "field r = field (initial_analysis now)"
    by simp
qed

lemma detectFrameworkAndType_keeps_more:
  "testFiles (detectFrameworkAndType a) = testFiles a"
  "buildTools (detectFrameworkAndType a) = buildTools a"
  "hasPackageJson (detectFrameworkAndType a) = hasPackageJson a"
  by (simp_all add: detectFrameworkAndType_def Let_def)

theorem C6_deepAnalysis_witness:
  "deepAnalysis (example_io ''/repo'') (example_ext ''/repo'' True) [] ''/repo'' ''2024'' = Returned partial_record
   \<and> framework partial_record = React
   \<and> length (projectStructure partial_record) = 6
   \<and> testFiles partial_record = testFiles (initial_analysis ''2024'')
   \<and> testFiles (initial_analysis ''2024'') = []"
proof -
  let ?steps = "deep_steps (example_io ''/repo'') (example_ext ''/repo'' True) [] ''/repo''"
  have len: "4 < length ?steps"
    by (simp add: deep_steps_def)
  have pre: "run_steps (take 4 ?steps) (initial_analysis ''2024'') = (Normal, partial_record)"
    by (simp add: deep_steps_def example_ext_def partial_record_def initial_analysis_def
        numeral_eq_Suc)
  have thr: "(?steps ! 4) partial_record = (Throw ''EACCES'', partial_record)"
    by (simp add: deep_steps_def example_ext_def)
  have frame: "\<forall>j \<le> 4. \<forall>x. testFiles (snd ((?steps ! j) x)) = testFiles x"
  proof (intro allI impI)
    fix j :: nat and x
    assume "j \<le> 4"
    then consider "j = 0" | "j = 1" | "j = 2" | "j = 3" | "j = 4"
      by arith
    then show "testFiles (snd ((?steps ! j) x)) = testFiles x"
      by cases (simp_all add: deep_steps_def example_ext_def detectFrameworkAndType_keeps_more)
  qed
  from C6_deepAnalysis_returns_partial_record [of "example_io ''/repo''" "example_ext ''/repo'' True" "[]" "''/repo''" "''2024''" testFiles]
    len pre thr frame
  have "deepAnalysis (example_io ''/repo'') (example_ext ''/repo'' True) [] ''/repo'' ''2024'' = Returned partial_record
        \<and> testFiles partial_record = testFiles (initial_analysis ''2024'')"
    by blast
  moreover have "framework partial_record = React"
    by (simp add: partial_record_def framework_detectFrameworkAndType frameworkIndicators_def
        combinedDeps_def initial_analysis_def truthy_def)
  moreover have "length (projectStructure partial_record) = 6"
    by (simp add: partial_record_def detectFrameworkAndType_keeps example_scan)
  moreover have "testFiles (initial_analysis ''2024'') = []"
    by (simp add: initial_analysis_def)
  ultimately show ?thesis
    by simp
qed

section \<open>Properties of the Pipeline Controller\<close>

lemma startsWith_prefix: "startsWith s t = prefix t s"
  by (induction s t rule: startsWith.induct) auto

text \<open>
  Claim C10. \<open>cleanup\<close> never raises; a path that is null or does not extend the temp-repos
  root as a string leaves the filesystem as it was; and whenever the filesystem changes, the path
  extends the root and the change is that of the one call \<open>fs.remove\<close> on it, also when that
  call throws.
\<close>

theorem C10_cleanup_only_under_temp_root:
  "fst (cleanup io ag tempPath fs) = Normal
   \<and> ((\<forall>p. tempPath = Some p \<longrightarrow> \<not> prefix (tempDir ag) p) \<longrightarrow> snd (cleanup io ag tempPath fs) = fs)
   \<and> (snd (cleanup io ag tempPath fs) \<noteq> fs
        \<longrightarrow> (\<exists>p. tempPath = Some p \<and> prefix (tempDir ag) p
                 \<and> snd (cleanup io ag tempPath fs) = snd (remove io p fs)))"
  by (cases tempPath; cases "remove io (the tempPath) fs"; cases "fst (remove io (the tempPath) fs)")
     (auto simp: cleanup_def startsWith_prefix split: completion.splits)

theorem C10_cleanup_witness:
  "fst (cleanup demo_io demo_agent (Some ''/work/temp-repos/locked-1'') []) = Normal
   \<and> snd (cleanup demo_io demo_agent (Some ''/etc/passwd'') []) = []
   \<and> snd (cleanup demo_io demo_agent None []) = []
   \<and> snd (cleanup demo_io demo_agent (Some ''/work/temp-repos/demo-1'') [])
        = [''remove /work/temp-repos/demo-1'']"
proof -
  have 1: "fst (cleanup demo_io demo_agent (Some ''/work/temp-repos/locked-1'') []) = Normal"
    using C10_cleanup_only_under_temp_root [of demo_io demo_agent "Some ''/work/temp-repos/locked-1''" "[]"]
    by simp
  have 2: "snd (cleanup demo_io demo_agent (Some ''/etc/passwd'') []) = []"
    using C10_cleanup_only_under_temp_root [of demo_io demo_agent "Some ''/etc/passwd''" "[]"]
    by (simp add: demo_agent_def new_agent_def path_join_def)
  have 3: "snd (cleanup demo_io demo_agent None []) = []"
    using C10_cleanup_only_under_temp_root [of demo_io demo_agent None "[]"]
    by simp
  have 4: "snd (cleanup demo_io demo_agent (Some ''/work/temp-repos/demo-1'') [])
        = [''remove /work/temp-repos/demo-1'']"
    by (simp add: cleanup_def demo_agent_def new_agent_def path_join_def demo_io_def example_io_def)
  from 1 2 3 4 show ?thesis
    by simp
qed

section \<open>Save failures in the controller\<close>

lemma generateTestSpecs_first:
  assumes "0 < recommendedSpecs s"
    and "generateTestSpecs tpl printed clk a s = Returned specs"
  shows "\<exists>spec rest. specs = spec # rest
           \<and> spec_name spec = ''generated-spec-'' @ string_of_nat (Suc 0) @ ''.cy.js''"
proof (cases "make_spec tpl printed clk a s 0")
  case (Raised message)
  with assms show ?thesis
    by (simp add: generateTestSpecs_def generate_loop.simps [of tpl printed clk a s 0])
next
  case (Returned spec)
  with assms have "generate_loop tpl printed clk a s (Suc 0) [spec] = Returned specs"
    by (simp add: generateTestSpecs_def generate_loop.simps [of tpl printed clk a s 0])
  from generate_loop_extends [OF this] obtain rest where "specs = spec # rest"
    by auto
  with make_spec_shape [OF Returned] show ?thesis
    by simp
qed

lemma generateTestSpecs_generateStrategy_returns:
  "\<exists>specs. generateTestSpecs tpl printed clk a (generateStrategy a') = Returned specs"
proof -
  have "\<forall>j. \<exists>spec. make_spec tpl printed clk a (generateStrategy a') j = Returned spec"
    by (simp add: make_spec_returns generateStrategy_patterns_own)
  then obtain f where "\<forall>j. make_spec tpl printed clk a (generateStrategy a') j = Returned (f j)"
    by metis
  from generate_loop_map [OF this, of 0 "[]"] show ?thesis
    by (simp add: generateTestSpecs_def)
qed

lemma calculateRecommendedSpecs_positive: "0 < calculateRecommendedSpecs a"
proof -
  have "0 \<le> (int (min (length (projectStructure a)) 150) + 25 * int (length (entryPoints a))) div 50"
    by (simp add: pos_imp_zdiv_nonneg_iff)
  then show ?thesis
    by (simp add: calculateRecommendedSpecs_closed)
qed

lemma processRepository_cloned:
  assumes clone: "cloneAndAnalyze ext url fs = (Cloned rp rn inst, fs1)"
  shows "\<exists>e. processRepository io ext ag url fs
               = (Success e, snd (saveSpecsToDisk io (generatedSpecs e) (outputDir ag) fs1))
           \<and> specsSaved e = fst (saveSpecsToDisk io (generatedSpecs e) (outputDir ag) fs1)
           \<and> generateTestSpecs (templateTable ext) (printInherited ext)
                 (\<lambda>i. readClock ext (i + 1))
                 (envelope_analysis e) (generateStrategy (envelope_analysis e))
               = Returned (generatedSpecs e)
           \<and> envelope_tempPath e = Some rp"
proof -
  let ?a = "snd (run_steps (deep_steps io ext fs1 rp) (initial_analysis (readClock ext 0)))"
  from generateTestSpecs_generateStrategy_returns obtain specs
    where "generateTestSpecs (templateTable ext) (printInherited ext)
             (\<lambda>i. readClock ext (i + 1)) ?a (generateStrategy ?a) = Returned specs"
    by blast
  with clone show ?thesis
    by (simp add: processRepository_def deepAnalysis_returns Let_def split: prod.splits)
qed

lemma processRepository_clone_failed:
  assumes clone: "cloneAndAnalyze ext url fs = (CloneFailed err, fs1)"
  shows "processRepository io ext ag url fs = (Failure (''Error clonando: '' @ err) url, fs1)"
  using clone
  by (simp add: processRepository_def on_error_def)

lemma saveSpecsToDisk_flag:
  "fst (saveSpecsToDisk io specs out s)
     = (fst (ensureDir io out s) = Normal
        \<and> fst (write_specs io out specs (snd (ensureDir io out s))) = Normal)"
  by (auto simp: saveSpecsToDisk_def split: prod.splits completion.splits)

text \<open>
  Claim C5, as the code has it. After a successful acquisition the controller returns a success
  envelope, whatever the save does: \<open>saveSpecsToDisk\<close> catches a throw of \<open>ensureDir\<close> or of
  a write and returns false, the envelope carries that as \<open>specsSaved\<close>, and the filesystem
  is left as the save attempt left it, with no cleanup. The failure envelope is for a failed
  acquisition; it carries the error message and the repository.
\<close>

theorem C5_save_failure_is_a_flag:
  "(cloneAndAnalyze ext url fs = (Cloned rp rn inst, fs1) \<longrightarrow>
      (\<exists>e. processRepository io ext ag url fs
               = (Success e, snd (saveSpecsToDisk io (generatedSpecs e) (outputDir ag) fs1))
          \<and> specsSaved e = fst (saveSpecsToDisk io (generatedSpecs e) (outputDir ag) fs1)
          \<and> (specsSaved e \<longleftrightarrow>
               fst (ensureDir io (outputDir ag) fs1) = Normal
               \<and> fst (write_specs io (outputDir ag) (generatedSpecs e)
                        (snd (ensureDir io (outputDir ag) fs1))) = Normal)))
   \<and> (cloneAndAnalyze ext url fs = (CloneFailed err, fs1) \<longrightarrow>
        processRepository io ext ag url fs = (Failure (''Error clonando: '' @ err) url, fs1))"
proof (intro conjI impI)
  assume "cloneAndAnalyze ext url fs = (Cloned rp rn inst, fs1)"
  from processRepository_cloned [OF this, of io ag]
  show "\<exists>e. processRepository io ext ag url fs
               = (Success e, snd (saveSpecsToDisk io (generatedSpecs e) (outputDir ag) fs1))
          \<and> specsSaved e = fst (saveSpecsToDisk io (generatedSpecs e) (outputDir ag) fs1)
          \<and> (specsSaved e \<longleftrightarrow>
               fst (ensureDir io (outputDir ag) fs1) = Normal
               \<and> fst (write_specs io (outputDir ag) (generatedSpecs e)
                        (snd (ensureDir io (outputDir ag) fs1))) = Normal)"
    using saveSpecsToDisk_flag by metis
next
  assume "cloneAndAnalyze ext url fs = (CloneFailed err, fs1)"
  then show "processRepository io ext ag url fs = (Failure (''Error clonando: '' @ err) url, fs1)"
    by (rule processRepository_clone_failed)
qed

lemma example_save_fails:
  "saveSpecsToDisk demo_io (spec # rest) out tr
     = (False, tr @ [''ensureDir '' @ out, ''writeFile '' @ path_join out (spec_name spec)])"
  by (simp add: saveSpecsToDisk_def demo_io_def example_io_def)

lemma example_run:
  "\<exists>e. processRepository demo_io demo_ext demo_agent
          ''https://github.com/demo/app'' []
        = (Success e,
           [''clone https://github.com/demo/app'', ''ensureDir /work/generated-specs'',
            ''writeFile /work/generated-specs/generated-spec-1.cy.js''])
      \<and> specsSaved e = False"
proof -
  let ?url = "''https://github.com/demo/app''"
  have clone: "cloneAndAnalyze demo_ext ?url []
      = (Cloned ''/work/temp-repos/demo-app-1'' ''demo-app-1'' True, [''clone https://github.com/demo/app''])"
    by (simp add: demo_ext_def example_ext_def)
  from processRepository_cloned [OF clone, of demo_io demo_agent]
  obtain e where run: "processRepository demo_io demo_ext demo_agent ?url []
        = (Success e, snd (saveSpecsToDisk demo_io (generatedSpecs e)
             (outputDir demo_agent) [''clone https://github.com/demo/app'']))"
    and flag: "specsSaved e = fst (saveSpecsToDisk demo_io (generatedSpecs e)
             (outputDir demo_agent) [''clone https://github.com/demo/app''])"
    and specs: "generateTestSpecs (templateTable demo_ext) (printInherited demo_ext)
                 (\<lambda>i. readClock demo_ext (i + 1))
                 (envelope_analysis e) (generateStrategy (envelope_analysis e))
               = Returned (generatedSpecs e)"
    by blast
  have "0 < recommendedSpecs (generateStrategy (envelope_analysis e))"
    by (simp add: recommendedSpecs_generateStrategy calculateRecommendedSpecs_positive)
  from generateTestSpecs_first [OF this specs]
  obtain spec rest where cons: "generatedSpecs e = spec # rest"
    and "spec_name spec = ''generated-spec-'' @ string_of_nat (Suc 0) @ ''.cy.js''"
    by blast
  moreover have "string_of_nat (Suc 0) = ''1''"
    by (subst string_of_nat.simps) (simp add: digit_char_def)
  ultimately have nm: "spec_name spec = ''generated-spec-1.cy.js''"
    by simp
  from run flag show ?thesis
    by (simp add: cons example_save_fails nm demo_agent_def new_agent_def path_join_def)
qed

text \<open>
  Claim C5 as stated fails: with every write throwing, the run on a repository that clones
  ends in a success envelope with \<open>specsSaved = false\<close>, and the filesystem saw the clone,
  \<open>ensureDir\<close> and the first write, and no removal.
\<close>

theorem C5_save_failure_counterexample:
  "fst (writeFile demo_io ''/work/generated-specs/generated-spec-1.cy.js'' []
         [''clone https://github.com/demo/app'', ''ensureDir /work/generated-specs''])
     = Throw ''ENOSPC''
   \<and> success (fst (processRepository demo_io demo_ext demo_agent
          ''https://github.com/demo/app'' []))
   \<and> reported_specsSaved (fst (processRepository demo_io demo_ext
          demo_agent ''https://github.com/demo/app'' [])) = Some False
   \<and> snd (processRepository demo_io demo_ext demo_agent
          ''https://github.com/demo/app'' [])
       = [''clone https://github.com/demo/app'', ''ensureDir /work/generated-specs'',
          ''writeFile /work/generated-specs/generated-spec-1.cy.js'']"
proof -
  have "fst (writeFile demo_io ''/work/generated-specs/generated-spec-1.cy.js'' []
         [''clone https://github.com/demo/app'', ''ensureDir /work/generated-specs''])
     = Throw ''ENOSPC''"
    by (simp add: demo_io_def example_io_def)
  with example_run show ?thesis
    by auto
qed

theorem C5_save_failure_witness:
  "(\<exists>e. processRepository demo_io demo_ext demo_agent
          ''https://github.com/demo/app'' []
         = (Success e, snd (saveSpecsToDisk demo_io (generatedSpecs e) ''/work/generated-specs''
              [''clone https://github.com/demo/app'']))
       \<and> \<not> specsSaved e)
   \<and> processRepository demo_io demo_ext demo_agent [] []
       = (Failure ''Error clonando: repository not found'' [], [])"
proof -
  have failed: "cloneAndAnalyze demo_ext [] [] = (CloneFailed ''repository not found'', [])"
    by (simp add: demo_ext_def example_ext_def)
  from C5_save_failure_is_a_flag [of demo_ext "[]" "[]" "[]" "[]" True "[]" demo_io demo_agent
      "''repository not found''"] failed
  have second: "processRepository demo_io demo_ext demo_agent [] []
       = (Failure ''Error clonando: repository not found'' [], [])"
    by simp
  have clone: "cloneAndAnalyze demo_ext ''https://github.com/demo/app'' []
      = (Cloned ''/work/temp-repos/demo-app-1'' ''demo-app-1'' True, [''clone https://github.com/demo/app''])"
    by (simp add: demo_ext_def example_ext_def)
  have dir: "outputDir demo_agent = ''/work/generated-specs''"
    by (simp add: demo_agent_def new_agent_def path_join_def)
  have wr: "fst (write_specs demo_io out (spec # rest) s) \<noteq> Normal" for out spec rest s
    by (simp add: demo_io_def example_io_def)
  from C5_save_failure_is_a_flag [of demo_ext "''https://github.com/demo/app''" "[]" "''/work/temp-repos/demo-app-1''"
      "''demo-app-1''" True "[''clone https://github.com/demo/app'']" demo_io demo_agent]
    clone
  obtain e where run: "processRepository demo_io demo_ext demo_agent
          ''https://github.com/demo/app'' []
         = (Success e, snd (saveSpecsToDisk demo_io (generatedSpecs e)
              (outputDir demo_agent) [''clone https://github.com/demo/app'']))"
    and flag: "specsSaved e = fst (saveSpecsToDisk demo_io (generatedSpecs e)
              (outputDir demo_agent) [''clone https://github.com/demo/app''])"
    by blast
  from example_run run have "\<not> specsSaved e"
    by auto
  with run dir second show ?thesis
    by auto
qed

end
